theory Spec2Isabelle
  imports Main "HOL-Library.Sublist" "HOL-Library.Char_ord" "HOL-Library.List_Lexorder"
begin

section \<open>Data model (toolkit/types.go)\<close>

text \<open>
  \<^verbatim>\<open>json.RawMessage\<close> is a byte string. \<^verbatim>\<open>encoding/json\<close> is a library the
  repository calls, so every decoder is a parameter of the model: a function from the
  raw payload to either the decode diagnostic (\<open>Inl\<close>, the text of the Go error) or the
  decoded value (\<open>Inr\<close>).
\<close>

type_synonym RawMessage = string

type_synonym 'a Unmarshal = "RawMessage \<Rightarrow> string + 'a"

record ToolKitChild =
  ToolKitChild_Name :: string
  Args :: RawMessage

record ToolKitParent =
  ToolKitParent_Name :: string
  ToolKitChilds :: "ToolKitChild list"

record ToolKit =
  ToolKit_Name :: string
  ToolKitParents :: "ToolKitParent list"

record ToolKitError =
  Code :: string
  Message :: string

text \<open>
  A Go \<^verbatim>\<open>error\<close> is an interface value: either the repository's own
  \<^verbatim>\<open>ToolKitError\<close> or some other error, of which only the message is observable
  (\<^verbatim>\<open>fmt.Errorf\<close>, \<^verbatim>\<open>errors.New\<close>, a decode error). A nil error is \<open>None\<close> of
  \<open>GoError option\<close>.
\<close>

datatype GoError = ToolKitErr ToolKitError | PlainErr string

fun Error :: "GoError \<Rightarrow> string" where
  "Error (ToolKitErr e) = Code e @ '': '' @ Message e"
| "Error (PlainErr m) = m"

definition NewError :: "string \<Rightarrow> string \<Rightarrow> GoError" where
  "NewError code message = ToolKitErr \<lparr>Code = code, Message = message\<rparr>"

text \<open>
  The \<^verbatim>\<open>Response interface{}\<close> field of a child response holds nil, an error value
  or a handler's result of the caller's type \<open>'r\<close>.
\<close>

datatype 'r ResponseValue = NilResponse | ErrorResponse GoError | ResultResponse 'r

record 'r ChildResponse =
  ChildResponse_Name :: string
  Response :: "'r ResponseValue"

record 'r ParentResponse =
  ParentResponse_Name :: string
  ChildsResponses :: "'r ChildResponse list"

record 'r ToolKitResponse =
  ToolKitResponse_Name :: string
  Responses :: "'r ParentResponse list"

definition ToolKitResponse_AddResponse ::
  "'r ToolKitResponse \<Rightarrow> 'r ParentResponse \<Rightarrow> 'r ToolKitResponse" where
  "ToolKitResponse_AddResponse tr pr = tr\<lparr>Responses := Responses tr @ [pr]\<rparr>"

definition ParentResponse_AddResponse ::
  "'r ParentResponse \<Rightarrow> 'r ChildResponse \<Rightarrow> 'r ParentResponse" where
  "ParentResponse_AddResponse pr cr = pr\<lparr>ChildsResponses := ChildsResponses pr @ [cr]\<rparr>"

section \<open>Schema documents\<close>

text \<open>
  An argument shape is what the struct tags of a Go argument type say, field by field:
  the JSON name, the Go type, whether the \<^verbatim>\<open>jsonschema\<close> tag carries \<^verbatim>\<open>required\<close>,
  and its \<^verbatim>\<open>description=\<close>.
\<close>

record FieldDef =
  field_name :: string
  field_type :: string
  field_required :: bool
  field_description :: string

record Property =
  property_type :: string
  property_description :: string

record Schema =
  schema_type :: string
  schema_properties :: "(string \<times> Property) list"
  schema_required :: "string list"
  schema_additionalProperties :: bool

text \<open>
  The reflector of \<^verbatim>\<open>github.com/invopop/jsonschema\<close>, as \<^verbatim>\<open>GenerateSchema\<close>
  configures it.
\<close>

record Reflector =
  AllowAdditionalProperties :: bool
  DoNotReference :: bool
  RequiredFromJSONSchemaTags :: bool

text \<open>
  The type parameter \<^verbatim>\<open>T\<close> of \<^verbatim>\<open>GenerateSchema[T]\<close> and \<^verbatim>\<open>NewChild[T]\<close> stands
  for what the engine and its libraries do at that type: the struct tags of \<^verbatim>\<open>T\<close>,
  \<^verbatim>\<open>json.Unmarshal\<close> into a value of \<^verbatim>\<open>T\<close> (a value of type \<open>'a\<close>), and the
  document the library's \<^verbatim>\<open>Reflect\<close> returns for a \<^verbatim>\<open>T\<close> under a given reflector.
  The two libraries are not part of the repository, so both are parameters.
\<close>

record 'a ArgType =
  arg_shape :: "FieldDef list"
  arg_unmarshal :: "'a Unmarshal"
  arg_reflect :: "Reflector \<Rightarrow> Schema"

definition GenerateSchema :: "'a ArgType \<Rightarrow> Schema" where
  "GenerateSchema argType =
     (let reflector = \<lparr>AllowAdditionalProperties = True,
                        DoNotReference = True,
                        RequiredFromJSONSchemaTags = True\<rparr>
      in arg_reflect argType reflector)"

section \<open>The Parent and Child interfaces (toolkit/toolkit.go)\<close>

text \<open>
  An interface is the record of its methods. \<open>'c\<close> is \<^verbatim>\<open>context.Context\<close>, handed
  down unchanged. Handlers do I/O, so every method that may run one takes the state of
  the world \<open>'s\<close> and returns it updated. \<^verbatim>\<open>Handle\<close> returns Go's pair
  \<^verbatim>\<open>(interface{}, error)\<close>: a result that may be nil and an error that may be nil.
\<close>

type_synonym ('s, 'r) HandleResult = "('r option \<times> GoError option) \<times> 's"

record ('c, 's, 'r) Child =
  Child_GetName :: string
  Child_GetDescription :: string
  Child_GetInputSchema :: Schema
  Child_Handle :: "'c \<Rightarrow> RawMessage \<Rightarrow> 's \<Rightarrow> ('s, 'r) HandleResult"

record ('c, 's, 'r) Parent =
  Parent_GetName :: string
  Parent_GetDescription :: string
  Parent_GetChildren :: "string \<rightharpoonup> ('c, 's, 'r) Child"
  Parent_HandleChildren :: "'c \<Rightarrow> ToolKitChild list \<Rightarrow> 's \<Rightarrow> 'r ParentResponse \<times> 's"

section \<open>Toolkit construction (toolkit/toolkit.go)\<close>

record ('c, 's, 'r) Toolkit =
  parents :: "string \<rightharpoonup> ('c, 's, 'r) Parent"
  name :: string

text \<open>
  The loop of \<^verbatim>\<open>New\<close> over its variadic argument. A nil interface value is \<open>None\<close>.
  The loop state is the map under construction and the lines written to the logger.
\<close>

fun New_loop ::
  "('c, 's, 'r) Parent option list \<Rightarrow> (string \<rightharpoonup> ('c, 's, 'r) Parent) \<Rightarrow> string list \<Rightarrow>
   (string \<rightharpoonup> ('c, 's, 'r) Parent) \<times> string list" where
  "New_loop [] parentMap lg = (parentMap, lg)"
| "New_loop (None # ps) parentMap lg =
     New_loop ps parentMap (lg @ [''Warning: nil parent provided to toolkit.New, skipping.''])"
| "New_loop (Some p # ps) parentMap lg =
     New_loop ps (parentMap(Parent_GetName p \<mapsto> p))
       (if parentMap (Parent_GetName p) \<noteq> None
        then lg @ [''Warning: Duplicate parent name '' @ [CHR 0x27] @ Parent_GetName p @ [CHR 0x27]
                   @ '' detected in toolkit.New. Overwriting.'']
        else lg)"

definition New ::
  "string \<Rightarrow> ('c, 's, 'r) Parent option list \<Rightarrow> ('c, 's, 'r) Toolkit \<times> string list" where
  "New nm ps = (case New_loop ps Map.empty [] of
                  (parentMap, lg) \<Rightarrow> (\<lparr>parents = parentMap, name = nm\<rparr>, lg))"

definition GetToolkitName :: "('c, 's, 'r) Toolkit \<Rightarrow> string" where
  "GetToolkitName t = name t"

section \<open>Request processing (toolkit/toolkit.go)\<close>

text \<open>
  While it processes a request or writes the manifest the engine also reports to the
  process logger (\<^verbatim>\<open>log.Printf\<close>). These lines are no part of what the functions
  return and the model of these functions leaves them out; the log of \<^verbatim>\<open>New\<close> is
  modelled above.
\<close>

definition parseToolKitInput :: "ToolKit Unmarshal \<Rightarrow> RawMessage \<Rightarrow> GoError + ToolKit" where
  "parseToolKitInput unmarshal input =
     (case unmarshal input of
        Inl err \<Rightarrow> Inl (PlainErr (''error unmarshaling toolkit JSON input: '' @ err))
      | Inr toolkitRequest \<Rightarrow> Inr toolkitRequest)"

text \<open>The \<^verbatim>\<open>for ... range toolkitRequest.ToolKitParents\<close> loop of \<^verbatim>\<open>processToolKit\<close>.\<close>

fun processParents ::
  "('c, 's, 'r) Toolkit \<Rightarrow> 'c \<Rightarrow> ToolKitParent list \<Rightarrow> 'r ToolKitResponse \<Rightarrow> 's \<Rightarrow>
   'r ToolKitResponse \<times> 's" where
  "processParents t ctx [] tlResponse s = (tlResponse, s)"
| "processParents t ctx (parentReq # rest) tlResponse s =
     (case parents t (ToolKitParent_Name parentReq) of
        None \<Rightarrow>
          processParents t ctx rest
            (ToolKitResponse_AddResponse tlResponse
               \<lparr>ParentResponse_Name = ToolKitParent_Name parentReq,
                ChildsResponses =
                  [\<lparr>ChildResponse_Name = ''_parent_error'',
                    Response = ErrorResponse
                      (NewError ''parent_not_found''
                         (''Parent toolkit '' @ [CHR 0x27] @ ToolKitParent_Name parentReq
                          @ [CHR 0x27] @ '' not registered''))\<rparr>]\<rparr>) s
      | Some parent \<Rightarrow>
          (case Parent_HandleChildren parent ctx (ToolKitChilds parentReq) s of
             (parentResponse, s') \<Rightarrow>
               processParents t ctx rest
                 (ToolKitResponse_AddResponse tlResponse parentResponse) s'))"

definition processToolKit ::
  "('c, 's, 'r) Toolkit \<Rightarrow> 'c \<Rightarrow> ToolKit \<Rightarrow> 's \<Rightarrow>
   ('r ToolKitResponse \<times> GoError option) \<times> 's" where
  "processToolKit t ctx toolkitRequest s =
     (let tlResponse = \<lparr>ToolKitResponse_Name = GetToolkitName t, Responses = []\<rparr>
      in if length (ToolKitParents toolkitRequest) = 0
         then ((tlResponse,
                Some (NewError ''no_toolkit_parents''
                        ''No toolkit parents specified in the request'')), s)
         else (case processParents t ctx (ToolKitParents toolkitRequest) tlResponse s of
                 (r, s') \<Rightarrow> ((r, None), s')))"

definition HandleToolKit ::
  "ToolKit Unmarshal \<Rightarrow> ('c, 's, 'r) Toolkit \<Rightarrow> 'c \<Rightarrow> RawMessage \<Rightarrow> 's \<Rightarrow>
   ('r ToolKitResponse \<times> GoError option) \<times> 's" where
  "HandleToolKit unmarshal t ctx input s =
     (case parseToolKitInput unmarshal input of
        Inl err \<Rightarrow>
          ((\<lparr>ToolKitResponse_Name = ''toolkit_request_parse_error'',
             Responses =
               [\<lparr>ParentResponse_Name = ''_parse_error'',
                 ChildsResponses =
                   [\<lparr>ChildResponse_Name = ''_input_error'',
                     Response = ErrorResponse (NewError ''invalid_input_json'' (Error err))\<rparr>]\<rparr>]\<rparr>,
            Some err), s)
      | Inr tkRequest \<Rightarrow> processToolKit t ctx tkRequest s)"

section \<open>The generic builder\<close>

text \<open>
  Modelled from the spec: \<^verbatim>\<open>NewChild\<close> is declared in the builder file of the
  toolkit package, which is missing from the sources; only its tests and callers are
  present. Section 4.3: the schema is generated once at construction and cached;
  \<^verbatim>\<open>Handle\<close> decodes the raw arguments, fails with \<^verbatim>\<open>invalid_arguments\<close> embedding
  the decode diagnostic without calling the handler, calls the handler otherwise, wraps
  a handler failure as \<^verbatim>\<open>handler_execution_error\<close> embedding the original message,
  and returns a handler's result unmodified. The spec fixes the codes and that the
  messages embed the diagnostic; the model takes the diagnostic itself as the message.
\<close>

definition NewChild ::
  "string \<Rightarrow> string \<Rightarrow> 'a ArgType \<Rightarrow> ('c \<Rightarrow> 'a \<Rightarrow> 's \<Rightarrow> ('s, 'r) HandleResult) \<Rightarrow>
   ('c, 's, 'r) Child" where
  "NewChild nm description argType handler =
     \<lparr>Child_GetName = nm,
      Child_GetDescription = description,
      Child_GetInputSchema = GenerateSchema argType,
      Child_Handle = (\<lambda>ctx args s.
        case arg_unmarshal argType args of
          Inl diag \<Rightarrow> ((None, Some (NewError ''invalid_arguments'' diag)), s)
        | Inr typedArgs \<Rightarrow>
            (case handler ctx typedArgs s of
               ((result, Some err), s') \<Rightarrow>
                 ((None, Some (NewError ''handler_execution_error'' (Error err))), s')
             | ((result, None), s') \<Rightarrow> ((result, None), s')))\<rparr>"

text \<open>
  Modelled from the spec: the dispatch loop of a category (section 4.2), whose source
  is in the same missing builder file. For each tool request in order: an unregistered
  name gives an entry with \<^verbatim>\<open>child_not_found\<close>, a registered tool is invoked and its
  result or its failure is embedded; every entry bears the requested name and every
  listed tool is processed. The text of the \<^verbatim>\<open>child_not_found\<close> message is not
  specified; the model uses the requested name.
\<close>

fun HandleChildren_loop ::
  "(string \<rightharpoonup> ('c, 's, 'r) Child) \<Rightarrow> 'c \<Rightarrow> ToolKitChild list \<Rightarrow> 'r ParentResponse \<Rightarrow> 's \<Rightarrow>
   'r ParentResponse \<times> 's" where
  "HandleChildren_loop children ctx [] pr s = (pr, s)"
| "HandleChildren_loop children ctx (req # rest) pr s =
     (case children (ToolKitChild_Name req) of
        None \<Rightarrow>
          HandleChildren_loop children ctx rest
            (ParentResponse_AddResponse pr
               \<lparr>ChildResponse_Name = ToolKitChild_Name req,
                Response = ErrorResponse
                  (NewError ''child_not_found'' (ToolKitChild_Name req))\<rparr>) s
      | Some child \<Rightarrow>
          (case Child_Handle child ctx (Args req) s of
             ((result, Some err), s') \<Rightarrow>
               HandleChildren_loop children ctx rest
                 (ParentResponse_AddResponse pr
                    \<lparr>ChildResponse_Name = ToolKitChild_Name req,
                     Response = ErrorResponse err\<rparr>) s'
           | ((result, None), s') \<Rightarrow>
               HandleChildren_loop children ctx rest
                 (ParentResponse_AddResponse pr
                    \<lparr>ChildResponse_Name = ToolKitChild_Name req,
                     Response = (case result of None \<Rightarrow> NilResponse
                                 | Some v \<Rightarrow> ResultResponse v)\<rparr>) s'))"

text \<open>
  Modelled from the spec: \<^verbatim>\<open>NewParent\<close>, also of the missing builder file. Section 3:
  a category has a name, a description and a mapping from tool name to tool with the
  registry's overwrite rule (the last registration of a name wins).
\<close>

fun NewParent_loop ::
  "('c, 's, 'r) Child list \<Rightarrow> (string \<rightharpoonup> ('c, 's, 'r) Child) \<Rightarrow> (string \<rightharpoonup> ('c, 's, 'r) Child)" where
  "NewParent_loop [] childMap = childMap"
| "NewParent_loop (c # cs) childMap = NewParent_loop cs (childMap(Child_GetName c \<mapsto> c))"

definition NewParent ::
  "string \<Rightarrow> string \<Rightarrow> ('c, 's, 'r) Child list \<Rightarrow> ('c, 's, 'r) Parent" where
  "NewParent nm description children =
     \<lparr>Parent_GetName = nm,
      Parent_GetDescription = description,
      Parent_GetChildren = NewParent_loop children Map.empty,
      Parent_HandleChildren = (\<lambda>ctx childRequests s.
        HandleChildren_loop (NewParent_loop children Map.empty) ctx childRequests
          \<lparr>ParentResponse_Name = nm, ChildsResponses = []\<rparr> s)\<rparr>"

section \<open>The manifest (toolkit/toolkit.go)\<close>

text \<open>
  \<^verbatim>\<open>for ... range\<close> over a Go map visits every entry once, in an order the language
  leaves unspecified and that may differ from one loop to the next. The order chosen by
  the runtime is an argument of the model: a list of keys, which is a legal choice for
  the map \<open>m\<close> when \<open>range_orders m ks\<close> holds.
\<close>

definition range_orders :: "('k \<rightharpoonup> 'v) \<Rightarrow> 'k list \<Rightarrow> bool" where
  "range_orders m ks \<longleftrightarrow> distinct ks \<and> set ks = dom m"

definition range_values :: "('k \<rightharpoonup> 'v) \<Rightarrow> 'k list \<Rightarrow> 'v list" where
  "range_values m ks = List.map_filter m ks"

text \<open>\<^verbatim>\<open>json.Marshal\<close>: \<open>Inl\<close> the error, \<open>Inr\<close> the bytes.\<close>

type_synonym 'a Marshal = "'a \<Rightarrow> string + string"

definition schemaStr :: "Schema Marshal \<Rightarrow> ('c, 's, 'r) Child \<Rightarrow> string" where
  "schemaStr marshal child =
     (case marshal (Child_GetInputSchema child) of
        Inr schemaBytes \<Rightarrow> schemaBytes
      | Inl err \<Rightarrow> ''schema_error'')"

definition describe_child :: "Schema Marshal \<Rightarrow> ('c, 's, 'r) Child \<Rightarrow> string" where
  \<open>describe_child marshal child =
     ''<child name="'' @ Child_GetName child @ ''" description="''
     @ Child_GetDescription child @ ''"><input_schema>'' @ schemaStr marshal child
     @ ''</input_schema></child>'' @ [CHR 0x0A]\<close>

definition describe_parent ::
  "Schema Marshal \<Rightarrow> ('c, 's, 'r) Parent \<Rightarrow> string list \<Rightarrow> string" where
  \<open>describe_parent marshal parent childOrder =
     ''<parent name="'' @ Parent_GetName parent @ ''" description="''
     @ Parent_GetDescription parent @ ''"></parent>'' @ [CHR 0x0A]
     @ (let children = Parent_GetChildren parent
        in if dom children \<noteq> {}
           then concat (map (describe_child marshal) (range_values children childOrder))
                @ ''</parent>'' @ [CHR 0x0A]
           else ''</parent>'' @ [CHR 0x0A])
     @ ''**NOTE**: A child tool cannot be invoked directly, the parent tool must be invoked first via its parent.''
     @ [CHR 0x0A]\<close>

text \<open>
  \<open>parentOrder\<close> is the order in which the loop over \<^verbatim>\<open>t.parents\<close> visits the keys,
  \<open>childOrder k\<close> the order in which the inner loop visits the children of the parent
  registered under \<open>k\<close>.
\<close>

definition GetToolkitDescription ::
  "Schema Marshal \<Rightarrow> ('c, 's, 'r) Toolkit \<Rightarrow> string list \<Rightarrow> (string \<Rightarrow> string list) \<Rightarrow> string" where
  \<open>GetToolkitDescription marshal t parentOrder childOrder =
     ''In this environment, you have access to the following <toolkit name="'' @ name t
     @ ''">:'' @ [CHR 0x0A]
     @ ''A <toolkit> is a collection of <parents>, a <parent> is a collection of <childs>.''
     @ [CHR 0x0A]
     @ ''Below is the list of available <parents> and their <childs>:'' @ [CHR 0x0A]
     @ concat (map (\<lambda>k. case parents t k of
                            None \<Rightarrow> []
                          | Some parent \<Rightarrow> describe_parent marshal parent (childOrder k))
                 parentOrder)
     @ ''</toolkit>''\<close>

subsection \<open>Reading a manifest back\<close>

text \<open>
  The entries of a manifest, in the order of the text: each \<^verbatim>\<open><parent name="\<close> tag
  with its name and description, each \<^verbatim>\<open><child name="\<close> tag with its name,
  description and the inlined schema text. Names and descriptions run to the next
  double quote, the schema text to the next \<^verbatim>\<open><\<close>.
\<close>

datatype ManifestEntry = ParentEntry string string | ChildEntry string string string

definition parent_tag :: string where
  \<open>parent_tag = ''<parent name="''\<close>

definition child_tag :: string where
  \<open>child_tag = ''<child name="''\<close>

definition quoted :: "string \<Rightarrow> string" where
  "quoted s = takeWhile (\<lambda>c. c \<noteq> CHR 0x22) s"

definition read_parent :: "string \<Rightarrow> ManifestEntry" where
  \<open>read_parent s =
     (let nm = quoted s;
          s1 = drop (length nm + length ''" description="'') s
      in ParentEntry nm (quoted s1))\<close>

definition read_child :: "string \<Rightarrow> ManifestEntry" where
  \<open>read_child s =
     (let nm = quoted s;
          s1 = drop (length nm + length ''" description="'') s;
          description = quoted s1;
          s2 = drop (length description + length ''"><input_schema>'') s1
      in ChildEntry nm description (takeWhile (\<lambda>c. c \<noteq> CHR ''<'') s2))\<close>

fun read_manifest :: "string \<Rightarrow> ManifestEntry list" where
  "read_manifest [] = []"
| "read_manifest (c # cs) =
     (if prefix parent_tag (c # cs)
      then read_parent (drop (length parent_tag) (c # cs)) # read_manifest cs
      else if prefix child_tag (c # cs)
      then read_child (drop (length child_tag) (c # cs)) # read_manifest cs
      else read_manifest cs)"

text \<open>
  The entries grouped as a tree: each parent name with the names of the child entries
  that follow it, up to the next parent entry.
\<close>

fun attach_entry ::
  "ManifestEntry \<Rightarrow> string list \<times> (string \<times> string list) list \<Rightarrow>
   string list \<times> (string \<times> string list) list" where
  "attach_entry (ChildEntry nm description schemaText) (pending, groups) = (nm # pending, groups)"
| "attach_entry (ParentEntry nm description) (pending, groups) = ([], (nm, pending) # groups)"

definition manifest_tree :: "ManifestEntry list \<Rightarrow> (string \<times> string list) list" where
  "manifest_tree entries = snd (foldr attach_entry entries ([], []))"

text \<open>
  Names and descriptions are written into the manifest as they are, with no escaping:
  a manifest can be read back when they contain neither \<^verbatim>\<open><\<close> nor a double quote,
  and the serialised schemas no \<^verbatim>\<open><\<close> (\<^verbatim>\<open>json.Marshal\<close> writes it as
  \<^verbatim>\<open>\u003c\<close>).
\<close>

definition plain_text :: "string \<Rightarrow> bool" where
  "plain_text s \<longleftrightarrow> CHR ''<'' \<notin> set s \<and> CHR 0x22 \<notin> set s"

definition plain_child :: "Schema Marshal \<Rightarrow> ('c, 's, 'r) Child \<Rightarrow> bool" where
  "plain_child marshal child \<longleftrightarrow>
     plain_text (Child_GetName child) \<and> plain_text (Child_GetDescription child)
     \<and> CHR ''<'' \<notin> set (schemaStr marshal child)"

definition plain_registry :: "Schema Marshal \<Rightarrow> ('c, 's, 'r) Toolkit \<Rightarrow> bool" where
  "plain_registry marshal t \<longleftrightarrow>
     CHR ''<'' \<notin> set (name t)
     \<and> (\<forall>k parent. parents t k = Some parent \<longrightarrow>
          plain_text (Parent_GetName parent) \<and> plain_text (Parent_GetDescription parent)
          \<and> (\<forall>j child. Parent_GetChildren parent j = Some child \<longrightarrow> plain_child marshal child))"

text \<open>
  A legal run of the two nested loops: the outer loop visits the keys of the registry
  in the order \<open>parentOrder\<close>, the inner loop the keys of each parent's children in the
  order \<open>childOrder k\<close>.
\<close>

definition legal_traversal ::
  "('c, 's, 'r) Toolkit \<Rightarrow> string list \<Rightarrow> (string \<Rightarrow> string list) \<Rightarrow> bool" where
  "legal_traversal t parentOrder childOrder \<longleftrightarrow>
     range_orders (parents t) parentOrder
     \<and> (\<forall>k parent. parents t k = Some parent \<longrightarrow>
          range_orders (Parent_GetChildren parent) (childOrder k))"

section \<open>What the interfaces and the libraries promise\<close>

text \<open>
  \<^verbatim>\<open>Parent\<close> and \<^verbatim>\<open>Child\<close> are interfaces, and the engine works with any
  implementation. Their documentation in toolkit.go and types.go says what an
  implementation is to do: \<^verbatim>\<open>GetChildren\<close> returns the children keyed by their
  names, a parent's name is the key it is looked up by, and a \<^verbatim>\<open>ParentResponse\<close>
  holds the parent's name and the ordered responses of the children that were executed.
\<close>

definition keyed_by_name :: "('c, 's, 'r) Toolkit \<Rightarrow> bool" where
  "keyed_by_name t \<longleftrightarrow>
     (\<forall>k parent. parents t k = Some parent \<longrightarrow>
        Parent_GetName parent = k
        \<and> (\<forall>j child. Parent_GetChildren parent j = Some child \<longrightarrow> Child_GetName child = j))"

definition answers_each_child :: "('c, 's, 'r) Parent \<Rightarrow> bool" where
  "answers_each_child parent \<longleftrightarrow>
     (\<forall>ctx childRequests s.
        ParentResponse_Name (fst (Parent_HandleChildren parent ctx childRequests s))
          = Parent_GetName parent
        \<and> map ChildResponse_Name
              (ChildsResponses (fst (Parent_HandleChildren parent ctx childRequests s)))
            = map ToolKitChild_Name childRequests)"

text \<open>
  \<^verbatim>\<open>GenerateSchema\<close> sets \<^verbatim>\<open>RequiredFromJSONSchemaTags\<close> so that, in the words of
  its comment, the reflector respects the \<^verbatim>\<open>jsonschema:"required"\<close> tags: a reflector
  so configured is to declare as required the fields that carry the tag, and no others.
\<close>

definition honours_required_tags :: "'a ArgType \<Rightarrow> bool" where
  "honours_required_tags argType \<longleftrightarrow>
     (\<forall>reflector. RequiredFromJSONSchemaTags reflector \<longrightarrow>
        schema_required (arg_reflect argType reflector)
          = map field_name (filter field_required (arg_shape argType)))"

text \<open>
  A serialised schema is parsed back by \<^verbatim>\<open>json.Unmarshal\<close>: \<open>parses_back\<close> says
  that the serialiser succeeds on a schema and that the parser returns that schema
  from the bytes.
\<close>

definition parses_back :: "Schema Marshal \<Rightarrow> Schema Unmarshal \<Rightarrow> Schema \<Rightarrow> bool" where
  "parses_back marshal unmarshal schema \<longleftrightarrow>
     (\<exists>schemaBytes. marshal schema = Inr schemaBytes \<and> unmarshal schemaBytes = Inr schema)"

section \<open>The fixtures of the tests (toolkit/tests)\<close>

text \<open>
  Concrete inputs in the manner of \<^verbatim>\<open>toolkit_test.go\<close> and \<^verbatim>\<open>builder_test.go\<close>. A
  decoder is given by the finite table of the payloads it accepts. The world state is
  the number of handler calls made so far.
\<close>

definition table_unmarshal :: "(RawMessage \<times> 'a) list \<Rightarrow> 'a Unmarshal" where
  "table_unmarshal tbl raw =
     (case map_of tbl raw of
        Some v \<Rightarrow> Inr v
      | None \<Rightarrow> Inl ''unexpected end of JSON input'')"

record testArgs =
  Val :: string

record testResp =
  Res :: string

text \<open>
  A reflector for the examples: under \<^verbatim>\<open>RequiredFromJSONSchemaTags\<close> it requires the
  tagged fields, otherwise every field.
\<close>

definition test_reflect :: "FieldDef list \<Rightarrow> Reflector \<Rightarrow> Schema" where
  "test_reflect shape reflector =
     \<lparr>schema_type = ''object'',
      schema_properties =
        map (\<lambda>f. (field_name f,
                  \<lparr>property_type = field_type f,
                   property_description = field_description f\<rparr>)) shape,
      schema_required =
        (if RequiredFromJSONSchemaTags reflector
         then map field_name (filter field_required shape)
         else map field_name shape),
      schema_additionalProperties = AllowAdditionalProperties reflector\<rparr>"

definition testArgs_shape :: "FieldDef list" where
  "testArgs_shape = [\<lparr>field_name = ''val'', field_type = ''string'',
                      field_required = False, field_description = []\<rparr>]"

definition testArgs_type :: "testArgs ArgType" where
  "testArgs_type =
     \<lparr>arg_shape = testArgs_shape,
      arg_unmarshal = table_unmarshal
        [(''v1a'', \<lparr>Val = ''v1a''\<rparr>), (''v1b'', \<lparr>Val = ''v1b''\<rparr>), (''v2a'', \<lparr>Val = ''v2a''\<rparr>)],
      arg_reflect = test_reflect testArgs_shape\<rparr>"

definition SimpleArgs_shape :: "FieldDef list" where
  "SimpleArgs_shape = [\<lparr>field_name = ''input'', field_type = ''string'',
                        field_required = True, field_description = []\<rparr>,
                       \<lparr>field_name = ''note'', field_type = ''string'',
                        field_required = False, field_description = ''an optional note''\<rparr>]"

definition SimpleArgs_type :: "testArgs ArgType" where
  "SimpleArgs_type =
     \<lparr>arg_shape = SimpleArgs_shape,
      arg_unmarshal = table_unmarshal [(''in1'', \<lparr>Val = ''in1''\<rparr>)],
      arg_reflect = test_reflect SimpleArgs_shape\<rparr>"

definition test_handler ::
  "string \<Rightarrow> string \<Rightarrow> bool \<Rightarrow> unit \<Rightarrow> testArgs \<Rightarrow> nat \<Rightarrow> (nat, testResp) HandleResult" where
  "test_handler nm retVal shouldErr ctx args s =
     (if shouldErr then ((None, Some (PlainErr (''child_err_'' @ nm))), Suc s)
      else ((Some \<lparr>Res = retVal @ '':'' @ Val args\<rparr>, None), Suc s))"

definition createTestChildFn ::
  "testArgs ArgType \<Rightarrow> string \<Rightarrow> string \<Rightarrow> bool \<Rightarrow> (unit, nat, testResp) Child" where
  "createTestChildFn argType nm retVal shouldErr =
     NewChild nm (''desc_'' @ nm) argType (test_handler nm retVal shouldErr)"

definition createTestParent ::
  "string \<Rightarrow> (unit, nat, testResp) Child list \<Rightarrow> (unit, nat, testResp) Parent" where
  "createTestParent nm children = NewParent nm (''desc_'' @ nm) children"

definition parent1 :: "(unit, nat, testResp) Parent" where
  "parent1 = createTestParent ''parent1''
     [createTestChildFn testArgs_type ''c1a'' ''r1a'' False,
      createTestChildFn testArgs_type ''c1b'' ''r1b'' False]"

definition parent2 :: "(unit, nat, testResp) Parent" where
  "parent2 = createTestParent ''parent2'' [createTestChildFn testArgs_type ''c2a'' ''r2a'' False]"

definition test_toolkit :: "(unit, nat, testResp) Toolkit" where
  "test_toolkit = fst (New ''test_handle_success'' [Some parent1, Some parent2])"

definition parent1_again :: "(unit, nat, testResp) Parent" where
  "parent1_again = createTestParent ''parent1'' [createTestChildFn testArgs_type ''c1z'' ''r1z'' False]"

definition parent_child_err :: "(unit, nat, testResp) Parent" where
  "parent_child_err = createTestParent ''test_parent_child_err''
     [createTestChildFn testArgs_type ''child1'' ''out1'' False,
      createTestChildFn testArgs_type ''childWithError'' [] True]"

text \<open>
  A serialiser for the examples, which writes the required list of the schema, and
  the parser of what it writes for the two example types.
\<close>

definition test_marshal :: "Schema Marshal" where
  "test_marshal schema =
     Inr (''{required:['' @ concat (map (\<lambda>n. n @ '','') (schema_required schema)) @ '']}'')"

definition test_unmarshal_schema :: "Schema Unmarshal" where
  "test_unmarshal_schema = table_unmarshal
     [(''{required:[input,]}'', GenerateSchema SimpleArgs_type),
      (''{required:[]}'', GenerateSchema testArgs_type)]"

fun sorted_child_order :: "string \<Rightarrow> string list" where
  "sorted_child_order k =
     (if k = ''parent1'' then [''c1a'', ''c1b''] else if k = ''parent2'' then [''c2a''] else [])"

fun other_child_order :: "string \<Rightarrow> string list" where
  "other_child_order k =
     (if k = ''parent1'' then [''c1b'', ''c1a''] else if k = ''parent2'' then [''c2a''] else [])"

definition emptyP :: "(unit, nat, testResp) Parent" where
  "emptyP = createTestParent ''emptyP'' []"

definition simple_parent :: "(unit, nat, testResp) Parent" where
  "simple_parent = createTestParent ''p2'' [createTestChildFn SimpleArgs_type ''c2a'' ''r2a'' False]"

definition manifest_toolkit :: "(unit, nat, testResp) Toolkit" where
  "manifest_toolkit = fst (New ''tk_full'' [Some parent1, Some simple_parent, Some emptyP])"

fun manifest_child_order :: "string \<Rightarrow> string list" where
  "manifest_child_order k =
     (if k = ''parent1'' then [''c1b'', ''c1a''] else if k = ''p2'' then [''c2a''] else [])"

text \<open>
  A parent whose description holds a parent tag, and two parents that each register a
  child named \<open>c\<close>.
\<close>

definition tagged_parent :: "(unit, nat, testResp) Parent" where
  \<open>tagged_parent = NewParent ''p1'' ''<parent name="p1" description="again'' []\<close>

definition tagged_toolkit :: "(unit, nat, testResp) Toolkit" where
  "tagged_toolkit = fst (New ''tk_tagged'' [Some tagged_parent])"

fun no_child_order :: "string \<Rightarrow> string list" where
  "no_child_order k = []"

definition twin_toolkit :: "(unit, nat, testResp) Toolkit" where
  "twin_toolkit = fst (New ''tk_twin''
     [Some (createTestParent ''pa'' [createTestChildFn testArgs_type ''c'' ''ra'' False]),
      Some (createTestParent ''pb'' [createTestChildFn testArgs_type ''c'' ''rb'' False])])"

fun twin_child_order :: "string \<Rightarrow> string list" where
  "twin_child_order k = [''c'']"

definition success_request :: ToolKit where
  "success_request =
     \<lparr>ToolKit_Name = ''toolkit'',
      ToolKitParents =
        [\<lparr>ToolKitParent_Name = ''parent1'',
          ToolKitChilds = [\<lparr>ToolKitChild_Name = ''c1b'', Args = ''v1b''\<rparr>,
                           \<lparr>ToolKitChild_Name = ''c1a'', Args = ''v1a''\<rparr>]\<rparr>,
         \<lparr>ToolKitParent_Name = ''parent2'',
          ToolKitChilds = [\<lparr>ToolKitChild_Name = ''c2a'', Args = ''v2a''\<rparr>]\<rparr>]\<rparr>"

definition ghost_request :: ToolKit where
  "ghost_request =
     \<lparr>ToolKit_Name = ''toolkit'',
      ToolKitParents =
        [\<lparr>ToolKitParent_Name = ''ghost'',
          ToolKitChilds = [\<lparr>ToolKitChild_Name = ''c1b'', Args = ''v1b''\<rparr>,
                           \<lparr>ToolKitChild_Name = ''c1a'', Args = ''v1a''\<rparr>]\<rparr>,
         \<lparr>ToolKitParent_Name = ''parent2'',
          ToolKitChilds = [\<lparr>ToolKitChild_Name = ''c2a'', Args = ''v2a''\<rparr>]\<rparr>]\<rparr>"

definition empty_request :: ToolKit where
  "empty_request = \<lparr>ToolKit_Name = ''toolkit'', ToolKitParents = []\<rparr>"

definition test_requests :: "ToolKit Unmarshal" where
  "test_requests = table_unmarshal
     [(''success'', success_request), (''ghost'', ghost_request), (''empty'', empty_request)]"

section \<open>Properties\<close>

lemmas fixture_defs =
  test_requests_def success_request_def ghost_request_def empty_request_def
  table_unmarshal_def parent1_again_def emptyP_def simple_parent_def manifest_toolkit_def test_toolkit_def New_def parent1_def parent2_def
  createTestParent_def createTestChildFn_def test_handler_def parent_child_err_def
  NewParent_def NewChild_def testArgs_type_def testArgs_shape_def
  SimpleArgs_type_def SimpleArgs_shape_def test_reflect_def tagged_parent_def tagged_toolkit_def
  twin_toolkit_def

lemmas engine_defs =
  HandleToolKit_def parseToolKitInput_def processToolKit_def NewError_def GetToolkitName_def
  ToolKitResponse_AddResponse_def ParentResponse_AddResponse_def

subsection \<open>Decode failure of the request\<close>

text \<open>
  C3. When the payload does not decode as a request, \<open>HandleToolKit\<close> returns a non-nil
  error together with a response of exactly one parent entry holding exactly one child
  entry, whose response is a \<open>ToolKitError\<close> of code \<open>invalid_input_json\<close> carrying
  the text of the returned error. Nothing is dispatched: the result is the same for
  every registry and the state of the world is returned as it was.
\<close>

theorem HandleToolKit_decode_failure:
  assumes "unmarshal input = Inl diag"
  shows "\<exists>err e. HandleToolKit unmarshal t ctx input s =
            ((\<lparr>ToolKitResponse_Name = ''toolkit_request_parse_error'',
               Responses = [\<lparr>ParentResponse_Name = ''_parse_error'',
                             ChildsResponses = [\<lparr>ChildResponse_Name = ''_input_error'',
                                                 Response = ErrorResponse (ToolKitErr e)\<rparr>]\<rparr>]\<rparr>,
              Some err), s)
          \<and> Code e = ''invalid_input_json''
          \<and> Message e = Error err"
  using assms by (simp add: HandleToolKit_def parseToolKitInput_def NewError_def)

theorem HandleToolKit_decode_failure_witness:
  "test_requests ''{invalid_json...'' = Inl ''unexpected end of JSON input''
   \<and> (\<exists>err e. HandleToolKit test_requests test_toolkit () ''{invalid_json...'' 0 =
            ((\<lparr>ToolKitResponse_Name = ''toolkit_request_parse_error'',
               Responses = [\<lparr>ParentResponse_Name = ''_parse_error'',
                             ChildsResponses = [\<lparr>ChildResponse_Name = ''_input_error'',
                                                 Response = ErrorResponse (ToolKitErr e)\<rparr>]\<rparr>]\<rparr>,
              Some err), 0)
          \<and> Code e = ''invalid_input_json''
          \<and> Message e = Error err)"
proof -
  have h: "test_requests ''{invalid_json...'' = Inl ''unexpected end of JSON input''"
    by (simp add: test_requests_def table_unmarshal_def)
  show ?thesis
    using h HandleToolKit_decode_failure
            [of test_requests "''{invalid_json...''" "''unexpected end of JSON input''"
                test_toolkit "()" 0]
    by simp
qed

subsection \<open>A request without parents\<close>

text \<open>
  C4. When the payload decodes to a request whose list of parents is empty,
  \<open>HandleToolKit\<close> returns the \<open>ToolKitError\<close> of code \<open>no_toolkit_parents\<close> as the
  error of the call, and a response that bears the name of the toolkit and has no
  parent entry.
\<close>

theorem HandleToolKit_no_parents:
  assumes "unmarshal input = Inr req" and "ToolKitParents req = []"
  shows "HandleToolKit unmarshal t ctx input s =
           ((\<lparr>ToolKitResponse_Name = name t, Responses = []\<rparr>,
             Some (ToolKitErr \<lparr>Code = ''no_toolkit_parents'',
                               Message = ''No toolkit parents specified in the request''\<rparr>)), s)"
  using assms
  by (simp add: HandleToolKit_def parseToolKitInput_def processToolKit_def NewError_def
                GetToolkitName_def)

theorem HandleToolKit_no_parents_witness:
  "test_requests ''empty'' = Inr empty_request \<and> ToolKitParents empty_request = []
   \<and> HandleToolKit test_requests test_toolkit () ''empty'' 0 =
           ((\<lparr>ToolKitResponse_Name = ''test_handle_success'', Responses = []\<rparr>,
             Some (ToolKitErr \<lparr>Code = ''no_toolkit_parents'',
                               Message = ''No toolkit parents specified in the request''\<rparr>)), 0)"
proof -
  have h: "test_requests ''empty'' = Inr empty_request"
    by (simp add: test_requests_def table_unmarshal_def)
  have e: "ToolKitParents empty_request = []"
    by (simp add: empty_request_def)
  have n: "name test_toolkit = ''test_handle_success''"
    by (simp add: test_toolkit_def New_def)
  show ?thesis
    using h e n HandleToolKit_no_parents
            [of test_requests "''empty''" empty_request test_toolkit "()" 0]
    by simp
qed

subsection \<open>The name of the response\<close>

lemma processParents_Name:
  "ToolKitResponse_Name (fst (processParents t ctx reqs r s)) = ToolKitResponse_Name r"
  by (induction reqs arbitrary: r s)
     (auto simp: ToolKitResponse_AddResponse_def split: option.splits prod.splits)

text \<open>
  C10. When the payload does not decode, the response is named
  \<open>toolkit_request_parse_error\<close>, its only parent entry \<open>_parse_error\<close> and the only
  child entry of that \<open>_input_error\<close>. When the payload decodes, whatever the request,
  the response bears the name of the toolkit.
\<close>

theorem HandleToolKit_response_name:
  "(unmarshal input = Inl diag \<longrightarrow>
      (let r = fst (fst (HandleToolKit unmarshal t ctx input s))
       in ToolKitResponse_Name r = ''toolkit_request_parse_error''
          \<and> map ParentResponse_Name (Responses r) = [''_parse_error'']
          \<and> map (\<lambda>pr. map ChildResponse_Name (ChildsResponses pr)) (Responses r)
              = [[''_input_error'']]))
   \<and> (unmarshal input = Inr req \<longrightarrow>
      ToolKitResponse_Name (fst (fst (HandleToolKit unmarshal t ctx input s))) = name t)"
  using processParents_Name [of t ctx "ToolKitParents req"
          "\<lparr>ToolKitResponse_Name = name t, Responses = []\<rparr>" s]
  by (auto simp: HandleToolKit_def parseToolKitInput_def processToolKit_def NewError_def
                 GetToolkitName_def Let_def split: prod.splits)

theorem HandleToolKit_response_name_witness:
  "test_requests ''{invalid_json...'' = Inl ''unexpected end of JSON input''
   \<and> (let r = fst (fst (HandleToolKit test_requests test_toolkit () ''{invalid_json...'' 0))
      in ToolKitResponse_Name r = ''toolkit_request_parse_error''
         \<and> map ParentResponse_Name (Responses r) = [''_parse_error'']
         \<and> map (\<lambda>pr. map ChildResponse_Name (ChildsResponses pr)) (Responses r)
             = [[''_input_error'']])
   \<and> (\<exists>req. test_requests ''success'' = Inr req)
   \<and> ToolKitResponse_Name (fst (fst (HandleToolKit test_requests test_toolkit () ''success'' 0)))
       = ''test_handle_success''"
proof -
  have h1: "test_requests ''{invalid_json...'' = Inl ''unexpected end of JSON input''"
    by (simp add: test_requests_def table_unmarshal_def)
  obtain req where h2: "test_requests ''success'' = Inr req"
    by (simp add: test_requests_def table_unmarshal_def)
  have n: "name test_toolkit = ''test_handle_success''"
    by (simp add: test_toolkit_def New_def)
  from HandleToolKit_response_name
         [of test_requests "''{invalid_json...''" "''unexpected end of JSON input''"
             test_toolkit "()" 0 req]
       HandleToolKit_response_name
         [of test_requests "''success''" "''unexpected end of JSON input''"
             test_toolkit "()" 0 req]
  show ?thesis using h1 h2 n by simp
qed

subsection \<open>Construction of the registry\<close>

lemma find_snoc:
  "find P (xs @ [x]) =
     (case find P xs of Some y \<Rightarrow> Some y | None \<Rightarrow> if P x then Some x else None)"
  by (induction xs) auto

lemma New_loop_lookup:
  "fst (New_loop ps m lg) k =
     (case find (\<lambda>p. Parent_GetName p = k) (rev (map the (filter (\<lambda>p. p \<noteq> None) ps))) of
        Some p \<Rightarrow> Some p
      | None \<Rightarrow> m k)"
proof (induction ps arbitrary: m lg)
  case Nil
  show ?case by simp
next
  case (Cons a ps)
  show ?case
  proof (cases a)
    case None
    then show ?thesis using Cons.IH by simp
  next
    case (Some p)
    then show ?thesis
      by (simp add: Cons.IH find_snoc split: option.splits)
  qed
qed

lemma New_loop_log:
  "length (filter (\<lambda>l. l = ''Warning: nil parent provided to toolkit.New, skipping.'')
             (snd (New_loop ps m lg))) =
   length (filter (\<lambda>l. l = ''Warning: nil parent provided to toolkit.New, skipping.'') lg)
   + length (filter (\<lambda>p. p = None) ps)"
proof (induction ps arbitrary: m lg)
  case Nil
  show ?case by simp
next
  case (Cons a ps)
  show ?case
  proof (cases a)
    case None
    then show ?thesis by (simp add: Cons.IH)
  next
    case (Some p)
    then show ?thesis by (simp add: Cons.IH)
  qed
qed

lemma New_parents:
  "parents (fst (New nm ps)) k =
     find (\<lambda>p. Parent_GetName p = k) (rev (map the (filter (\<lambda>p. p \<noteq> None) ps)))"
  using New_loop_lookup [of ps Map.empty "[]" k]
  by (auto simp: New_def split: prod.splits option.splits)

text \<open>
  C8. \<open>New\<close> returns a toolkit for every list of parents; it has no error result. The
  toolkit bears the given name. Under a name \<open>k\<close> the registry holds the last non-nil
  entry of the list named \<open>k\<close> (the first one found from the end), and nothing when
  there is none: a nil entry registers nothing and a later entry replaces an earlier
  one of the same name. The log holds one nil warning for each nil entry.
\<close>

theorem New_last_registration_wins:
  "name (fst (New nm ps)) = nm
   \<and> parents (fst (New nm ps)) k =
       find (\<lambda>p. Parent_GetName p = k) (rev (map the (filter (\<lambda>p. p \<noteq> None) ps)))
   \<and> length (filter (\<lambda>l. l = ''Warning: nil parent provided to toolkit.New, skipping.'')
               (snd (New nm ps)))
       = length (filter (\<lambda>p. p = None) ps)"
  using New_loop_lookup [of ps Map.empty "[]" k] New_loop_log [of ps Map.empty "[]"]
  by (auto simp: New_def split: prod.splits option.splits)

theorem New_last_registration_wins_witness:
  "name (fst (New ''dup_overwrite_tk'' [Some parent1, None, Some parent2, Some parent1_again]))
     = ''dup_overwrite_tk''
   \<and> parents (fst (New ''dup_overwrite_tk'' [Some parent1, None, Some parent2, Some parent1_again]))
       ''parent1'' = Some parent1_again
   \<and> parents (fst (New ''dup_overwrite_tk'' [Some parent1, None, Some parent2, Some parent1_again]))
       ''parent2'' = Some parent2
   \<and> parents (fst (New ''dup_overwrite_tk'' [Some parent1, None, Some parent2, Some parent1_again]))
       ''parent3'' = None
   \<and> length (filter (\<lambda>l. l = ''Warning: nil parent provided to toolkit.New, skipping.'')
        (snd (New ''dup_overwrite_tk'' [Some parent1, None, Some parent2, Some parent1_again])))
       = 1"
proof -
  have n: "Parent_GetName parent1 = ''parent1''" "Parent_GetName parent2 = ''parent2''"
          "Parent_GetName parent1_again = ''parent1''"
    by (simp_all add: parent1_def parent2_def parent1_again_def createTestParent_def NewParent_def)
  from New_last_registration_wins
         [of "''dup_overwrite_tk''" "[Some parent1, None, Some parent2, Some parent1_again]"
             "''parent1''"]
       New_last_registration_wins
         [of "''dup_overwrite_tk''" "[Some parent1, None, Some parent2, Some parent1_again]"
             "''parent2''"]
       New_last_registration_wins
         [of "''dup_overwrite_tk''" "[Some parent1, None, Some parent2, Some parent1_again]"
             "''parent3''"]
  show ?thesis by (simp add: n)
qed

subsection \<open>Unregistered parents\<close>

lemma Responses_AddResponse [simp]:
  "Responses (ToolKitResponse_AddResponse r e) = Responses r @ [e]"
  by (simp add: ToolKitResponse_AddResponse_def)

lemma processParents_Responses:
  "\<exists>ext. Responses (fst (processParents t ctx reqs r s)) = Responses r @ ext
         \<and> length ext = length reqs"
proof (induction reqs arbitrary: r s)
  case Nil
  show ?case by simp
next
  case (Cons q reqs)
  show ?case
  proof (cases "parents t (ToolKitParent_Name q)")
    case None
    from Cons.IH
           [of "ToolKitResponse_AddResponse r
                  \<lparr>ParentResponse_Name = ToolKitParent_Name q,
                   ChildsResponses =
                     [\<lparr>ChildResponse_Name = ''_parent_error'',
                       Response = ErrorResponse
                         (NewError ''parent_not_found''
                            (''Parent toolkit '' @ [CHR 0x27] @ ToolKitParent_Name q
                             @ [CHR 0x27] @ '' not registered''))\<rparr>]\<rparr>" s]
    show ?thesis using None
      by auto
  next
    case (Some p)
    obtain pr s' where h: "Parent_HandleChildren p ctx (ToolKitChilds q) s = (pr, s')"
      by (cases "Parent_HandleChildren p ctx (ToolKitChilds q) s")
    from Cons.IH [of "ToolKitResponse_AddResponse r pr" s']
    show ?thesis using Some h
      by auto
  qed
qed

lemma processParents_length:
  "length (Responses (fst (processParents t ctx reqs r s))) = length (Responses r) + length reqs"
  using processParents_Responses [of t ctx reqs r s] by auto

lemma processParents_nth:
  "i < length reqs \<Longrightarrow>
   Responses (fst (processParents t ctx reqs r s)) ! (length (Responses r) + i) =
     (case parents t (ToolKitParent_Name (reqs ! i)) of
        None \<Rightarrow>
          \<lparr>ParentResponse_Name = ToolKitParent_Name (reqs ! i),
           ChildsResponses =
             [\<lparr>ChildResponse_Name = ''_parent_error'',
               Response = ErrorResponse
                 (NewError ''parent_not_found''
                    (''Parent toolkit '' @ [CHR 0x27] @ ToolKitParent_Name (reqs ! i)
                     @ [CHR 0x27] @ '' not registered''))\<rparr>]\<rparr>
      | Some p \<Rightarrow> fst (Parent_HandleChildren p ctx (ToolKitChilds (reqs ! i))
                      (snd (processParents t ctx (take i reqs) r s))))"
proof (induction reqs arbitrary: r s i)
  case Nil
  then show ?case by simp
next
  case (Cons q reqs)
  show ?case
  proof (cases "parents t (ToolKitParent_Name q)")
    case None
    let ?r = "ToolKitResponse_AddResponse r
                  \<lparr>ParentResponse_Name = ToolKitParent_Name q,
                   ChildsResponses =
                     [\<lparr>ChildResponse_Name = ''_parent_error'',
                       Response = ErrorResponse
                         (NewError ''parent_not_found''
                            (''Parent toolkit '' @ [CHR 0x27] @ ToolKitParent_Name q
                             @ [CHR 0x27] @ '' not registered''))\<rparr>]\<rparr>"
    show ?thesis
    proof (cases i)
      case 0
      from processParents_Responses [of t ctx reqs ?r s]
      show ?thesis using None 0
        by (auto simp: nth_append)
    next
      case (Suc j)
      with Cons.prems have "j < length reqs" by simp
      from Cons.IH [OF this, of ?r s]
      show ?thesis using None Suc
        by (auto split: option.splits)
    qed
  next
    case (Some p)
    obtain pr s' where h: "Parent_HandleChildren p ctx (ToolKitChilds q) s = (pr, s')"
      by (cases "Parent_HandleChildren p ctx (ToolKitChilds q) s")
    let ?r = "ToolKitResponse_AddResponse r pr"
    show ?thesis
    proof (cases i)
      case 0
      from processParents_Responses [of t ctx reqs ?r s']
      show ?thesis using Some h 0
        by (auto simp: nth_append)
    next
      case (Suc j)
      with Cons.prems have "j < length reqs" by simp
      from Cons.IH [OF this, of ?r s']
      show ?thesis using Some h Suc
        by (auto split: option.splits)
    qed
  qed
qed

lemma HandleToolKit_decoded:
  assumes "unmarshal input = Inr req" and "ToolKitParents req \<noteq> []"
  shows "HandleToolKit unmarshal t ctx input s =
           ((fst (processParents t ctx (ToolKitParents req)
                    \<lparr>ToolKitResponse_Name = name t, Responses = []\<rparr> s), None),
            snd (processParents t ctx (ToolKitParents req)
                   \<lparr>ToolKitResponse_Name = name t, Responses = []\<rparr> s))"
  using assms
  by (simp add: HandleToolKit_def parseToolKitInput_def processToolKit_def GetToolkitName_def
           split: prod.splits)

text \<open>
  C5. When the decoded request names an unregistered parent at position \<open>i\<close>, the call
  returns a nil error and as many parent entries as the request lists parents. Entry
  \<open>i\<close> bears the requested name and holds the single child entry \<open>_parent_error\<close>
  with the \<open>ToolKitError\<close> of code \<open>parent_not_found\<close>. Every registered parent of
  the list is still dispatched: the entry at its position \<open>j\<close> is what its
  \<open>HandleChildren\<close> returns for the requested children, run in the state the first
  \<open>j\<close> parents of the request left.
\<close>

theorem HandleToolKit_parent_not_found:
  assumes "unmarshal input = Inr req"
    and "i < length (ToolKitParents req)"
    and "parents t (ToolKitParent_Name (ToolKitParents req ! i)) = None"
  shows "snd (fst (HandleToolKit unmarshal t ctx input s)) = None
    \<and> length (Responses (fst (fst (HandleToolKit unmarshal t ctx input s))))
        = length (ToolKitParents req)
    \<and> Responses (fst (fst (HandleToolKit unmarshal t ctx input s))) ! i =
        \<lparr>ParentResponse_Name = ToolKitParent_Name (ToolKitParents req ! i),
         ChildsResponses =
           [\<lparr>ChildResponse_Name = ''_parent_error'',
             Response = ErrorResponse
               (ToolKitErr \<lparr>Code = ''parent_not_found'',
                  Message = ''Parent toolkit '' @ [CHR 0x27]
                            @ ToolKitParent_Name (ToolKitParents req ! i) @ [CHR 0x27]
                            @ '' not registered''\<rparr>)\<rparr>]\<rparr>
    \<and> (\<forall>j p. j < length (ToolKitParents req)
           \<and> parents t (ToolKitParent_Name (ToolKitParents req ! j)) = Some p \<longrightarrow>
         Responses (fst (fst (HandleToolKit unmarshal t ctx input s))) ! j =
           fst (Parent_HandleChildren p ctx (ToolKitChilds (ToolKitParents req ! j))
                  (snd (processParents t ctx (take j (ToolKitParents req))
                          \<lparr>ToolKitResponse_Name = name t, Responses = []\<rparr> s))))"
proof -
  let ?r0 = "\<lparr>ToolKitResponse_Name = name t, Responses = []\<rparr> :: 'c ToolKitResponse"
  let ?reqs = "ToolKitParents req"
  from assms(2) have ne: "?reqs \<noteq> []" by auto
  have H: "HandleToolKit unmarshal t ctx input s =
             ((fst (processParents t ctx ?reqs ?r0 s), None),
              snd (processParents t ctx ?reqs ?r0 s))"
    using assms(1) ne by (rule HandleToolKit_decoded)
  have len: "length (Responses (fst (processParents t ctx ?reqs ?r0 s))) = length ?reqs"
    by (simp add: processParents_length)
  have nth: "\<And>j. j < length ?reqs \<Longrightarrow>
     Responses (fst (processParents t ctx ?reqs ?r0 s)) ! j =
     (case parents t (ToolKitParent_Name (?reqs ! j)) of
        None \<Rightarrow>
          \<lparr>ParentResponse_Name = ToolKitParent_Name (?reqs ! j),
           ChildsResponses =
             [\<lparr>ChildResponse_Name = ''_parent_error'',
               Response = ErrorResponse
                 (NewError ''parent_not_found''
                    (''Parent toolkit '' @ [CHR 0x27] @ ToolKitParent_Name (?reqs ! j)
                     @ [CHR 0x27] @ '' not registered''))\<rparr>]\<rparr>
      | Some p \<Rightarrow> fst (Parent_HandleChildren p ctx (ToolKitChilds (?reqs ! j))
                      (snd (processParents t ctx (take j ?reqs) ?r0 s))))"
    using processParents_nth [of _ ?reqs t ctx ?r0 s] by simp
  show ?thesis
    using H len nth [OF assms(2)] assms(3) nth
    by (auto simp: NewError_def split: option.splits)
qed
theorem HandleToolKit_parent_not_found_witness:
  "test_requests ''ghost'' = Inr ghost_request
   \<and> 0 < length (ToolKitParents ghost_request)
   \<and> parents test_toolkit (ToolKitParent_Name (ToolKitParents ghost_request ! 0)) = None
   \<and> snd (fst (HandleToolKit test_requests test_toolkit () ''ghost'' 0)) = None
   \<and> length (Responses (fst (fst (HandleToolKit test_requests test_toolkit () ''ghost'' 0)))) = 2
   \<and> Responses (fst (fst (HandleToolKit test_requests test_toolkit () ''ghost'' 0))) ! 0 =
        \<lparr>ParentResponse_Name = ''ghost'',
         ChildsResponses =
           [\<lparr>ChildResponse_Name = ''_parent_error'',
             Response = ErrorResponse
               (ToolKitErr \<lparr>Code = ''parent_not_found'',
                  Message = ''Parent toolkit '' @ [CHR 0x27] @ ''ghost'' @ [CHR 0x27]
                            @ '' not registered''\<rparr>)\<rparr>]\<rparr>
   \<and> Responses (fst (fst (HandleToolKit test_requests test_toolkit () ''ghost'' 0))) ! 1 =
        \<lparr>ParentResponse_Name = ''parent2'',
         ChildsResponses =
           [\<lparr>ChildResponse_Name = ''c2a'',
             Response = ResultResponse \<lparr>Res = ''r2a:v2a''\<rparr>\<rparr>]\<rparr>"
proof -
  have h1: "test_requests ''ghost'' = Inr ghost_request"
    by (simp add: test_requests_def table_unmarshal_def)
  have h2: "0 < length (ToolKitParents ghost_request)"
    by (simp add: ghost_request_def)
  have h3: "parents test_toolkit (ToolKitParent_Name (ToolKitParents ghost_request ! 0)) = None"
    by (simp add: fixture_defs)
  have len: "length (ToolKitParents ghost_request) = 2"
    and nm: "ToolKitParent_Name (ToolKitParents ghost_request ! 0) = ''ghost''"
    by (simp_all add: ghost_request_def)
  have e1: "Responses (fst (fst (HandleToolKit test_requests test_toolkit () ''ghost'' 0))) ! 1 =
        \<lparr>ParentResponse_Name = ''parent2'',
         ChildsResponses =
           [\<lparr>ChildResponse_Name = ''c2a'',
             Response = ResultResponse \<lparr>Res = ''r2a:v2a''\<rparr>\<rparr>]\<rparr>"
    by (simp add: fixture_defs engine_defs)
  from HandleToolKit_parent_not_found
         [of test_requests "''ghost''" ghost_request 0 test_toolkit "()" 0, OF h1 h2 h3]
  show ?thesis using h1 h2 h3 e1 by (simp add: len nm)
qed

subsection \<open>Argument decoding and handler failure in a tool\<close>

text \<open>
  C6. When the raw arguments do not decode into the argument type of a tool built by
  \<open>NewChild\<close>, \<open>Handle\<close> returns a nil result and a \<open>ToolKitError\<close> of code
  \<open>invalid_arguments\<close> whose message contains the decode diagnostic. The handler is
  not called: the state of the world is returned as it was, and the outcome is the
  same whichever handler is bound.
\<close>

theorem NewChild_invalid_arguments:
  assumes "arg_unmarshal argType args = Inl diag"
  shows "(\<exists>e. Child_Handle (NewChild nm description argType handler) ctx args s
               = ((None, Some (ToolKitErr e)), s)
            \<and> Code e = ''invalid_arguments'' \<and> sublist diag (Message e))
         \<and> Child_Handle (NewChild nm description argType handler) ctx args s
           = Child_Handle (NewChild nm description argType handler') ctx args s"
  using assms by (simp add: NewChild_def NewError_def)

theorem NewChild_invalid_arguments_witness:
  "arg_unmarshal testArgs_type ''{bad'' = Inl ''unexpected end of JSON input''
   \<and> (\<exists>e. Child_Handle (createTestChildFn testArgs_type ''c1a'' ''r1a'' False) () ''{bad'' 7
               = ((None, Some (ToolKitErr e)), 7)
            \<and> Code e = ''invalid_arguments''
            \<and> sublist ''unexpected end of JSON input'' (Message e))"
proof -
  have h: "arg_unmarshal testArgs_type ''{bad'' = Inl ''unexpected end of JSON input''"
    by (simp add: testArgs_type_def table_unmarshal_def)
  show ?thesis unfolding createTestChildFn_def
    by (rule conjI [OF h conjunct1 [OF NewChild_invalid_arguments [OF h]]])
qed

lemma ChildsResponses_AddResponse [simp]:
  "ChildsResponses (ParentResponse_AddResponse pr e) = ChildsResponses pr @ [e]"
  by (simp add: ParentResponse_AddResponse_def)

lemma ParentResponse_Name_AddResponse [simp]:
  "ParentResponse_Name (ParentResponse_AddResponse pr e) = ParentResponse_Name pr"
  by (simp add: ParentResponse_AddResponse_def)

lemma HandleChildren_loop_append:
  "HandleChildren_loop ch ctx (xs @ ys) pr s =
     (case HandleChildren_loop ch ctx xs pr s of
        (pr', s') \<Rightarrow> HandleChildren_loop ch ctx ys pr' s')"
  by (induction xs arbitrary: pr s) (auto split: option.splits prod.splits)

lemma HandleChildren_loop_acc:
  fixes ch :: "string \<rightharpoonup> ('c, 's, 'r) Child"
  shows
  "ChildsResponses (fst (HandleChildren_loop ch ctx reqs pr s)) =
     ChildsResponses pr
     @ ChildsResponses (fst (HandleChildren_loop ch ctx reqs
                               \<lparr>ParentResponse_Name = n, ChildsResponses = []\<rparr> s))
   \<and> snd (HandleChildren_loop ch ctx reqs pr s) =
     snd (HandleChildren_loop ch ctx reqs \<lparr>ParentResponse_Name = n, ChildsResponses = []\<rparr> s)"
proof (induction reqs arbitrary: pr s n)
  case Nil
  show ?case by simp
next
  case (Cons q reqs)
  let ?p0 = "\<lparr>ParentResponse_Name = n, ChildsResponses = []\<rparr> :: 'r ParentResponse"
  have step: "\<And>e s'. ChildsResponses (fst (HandleChildren_loop ch ctx reqs
                                    (ParentResponse_AddResponse pr e) s')) =
        ChildsResponses pr
        @ ChildsResponses (fst (HandleChildren_loop ch ctx reqs
                                  (ParentResponse_AddResponse ?p0 e) s'))
      \<and> snd (HandleChildren_loop ch ctx reqs (ParentResponse_AddResponse pr e) s') =
        snd (HandleChildren_loop ch ctx reqs (ParentResponse_AddResponse ?p0 e) s')"
  proof -
    fix e s'
    from Cons.IH [of "ParentResponse_AddResponse pr e" s' n]
         Cons.IH [of "ParentResponse_AddResponse ?p0 e" s' n]
    show "ChildsResponses (fst (HandleChildren_loop ch ctx reqs
                                    (ParentResponse_AddResponse pr e) s')) =
        ChildsResponses pr
        @ ChildsResponses (fst (HandleChildren_loop ch ctx reqs
                                  (ParentResponse_AddResponse ?p0 e) s'))
      \<and> snd (HandleChildren_loop ch ctx reqs (ParentResponse_AddResponse pr e) s') =
        snd (HandleChildren_loop ch ctx reqs (ParentResponse_AddResponse ?p0 e) s')"
      by simp
  qed
  show ?case
    by (simp add: step split: option.splits prod.splits)
qed

lemma HandleChildren_loop_names:
  "map ChildResponse_Name (ChildsResponses (fst (HandleChildren_loop ch ctx reqs pr s))) =
     map ChildResponse_Name (ChildsResponses pr) @ map ToolKitChild_Name reqs
   \<and> ParentResponse_Name (fst (HandleChildren_loop ch ctx reqs pr s)) = ParentResponse_Name pr"
  by (induction reqs arbitrary: pr s) (auto split: option.splits prod.splits)

text \<open>
  C7. When the handler of a registered tool fails, the entry of that tool in the
  response of its parent bears the requested name and carries a \<open>ToolKitError\<close> of code
  \<open>handler_execution_error\<close> whose message contains the message of the handler's
  error. The tools listed before and after it are dispatched as usual: the child
  entries of the response are those of the requests before it, then this entry, then
  those of the requests after it, each group as \<open>HandleChildren\<close> returns it for that
  group alone in the state reached at that point.
\<close>

theorem HandleChildren_handler_error:
  fixes parent :: "('c, 's, 'r) Parent"
  assumes "parent = NewParent pn pd children"
    and "Parent_GetChildren parent (ToolKitChild_Name req) = Some (NewChild cn cd argType handler)"
    and "arg_unmarshal argType (Args req) = Inr typedArgs"
    and "snd (Parent_HandleChildren parent ctx before s) = s1"
    and "handler ctx typedArgs s1 = ((result, Some err), s2)"
  shows "\<exists>e. ChildsResponses (fst (Parent_HandleChildren parent ctx (before @ [req] @ after) s)) =
             ChildsResponses (fst (Parent_HandleChildren parent ctx before s))
             @ [\<lparr>ChildResponse_Name = ToolKitChild_Name req,
                 Response = ErrorResponse (ToolKitErr e)\<rparr>]
             @ ChildsResponses (fst (Parent_HandleChildren parent ctx after s2))
           \<and> Code e = ''handler_execution_error''
           \<and> sublist (Error err) (Message e)"
proof -
  let ?ch = "NewParent_loop children Map.empty"
  let ?p0 = "\<lparr>ParentResponse_Name = pn, ChildsResponses = []\<rparr> :: 'r ParentResponse"
  let ?e = "\<lparr>ChildResponse_Name = ToolKitChild_Name req,
             Response = ErrorResponse (NewError ''handler_execution_error'' (Error err))\<rparr>
            :: 'r ChildResponse"
  obtain pr1 where b: "HandleChildren_loop ?ch ctx before ?p0 s = (pr1, s1)"
    using assms(1,4) by (cases "HandleChildren_loop ?ch ctx before ?p0 s") (simp add: NewParent_def)
  have look: "?ch (ToolKitChild_Name req) = Some (NewChild cn cd argType handler)"
    using assms(1,2) by (simp add: NewParent_def)
  have call: "Child_Handle (NewChild cn cd argType handler) ctx (Args req) s1
                = ((None, Some (NewError ''handler_execution_error'' (Error err))), s2)"
    using assms(3,5) by (simp add: NewChild_def)
  have one: "HandleChildren_loop ?ch ctx (req # after) pr1 s1 =
               HandleChildren_loop ?ch ctx after (ParentResponse_AddResponse pr1 ?e) s2"
    using look call by simp
  have whole: "HandleChildren_loop ?ch ctx (before @ [req] @ after) ?p0 s =
                 HandleChildren_loop ?ch ctx after (ParentResponse_AddResponse pr1 ?e) s2"
    using b one by (simp add: HandleChildren_loop_append)
  from HandleChildren_loop_acc [of ?ch ctx after "ParentResponse_AddResponse pr1 ?e" s2 pn]
  have "ChildsResponses (fst (HandleChildren_loop ?ch ctx (before @ [req] @ after) ?p0 s)) =
          ChildsResponses pr1 @ [?e]
          @ ChildsResponses (fst (HandleChildren_loop ?ch ctx after ?p0 s2))"
    using whole by simp
  then have "ChildsResponses (fst (Parent_HandleChildren parent ctx (before @ [req] @ after) s)) =
             ChildsResponses (fst (Parent_HandleChildren parent ctx before s))
             @ [?e] @ ChildsResponses (fst (Parent_HandleChildren parent ctx after s2))"
    using assms(1) b by (simp add: NewParent_def)
  then show ?thesis
    by (auto simp: NewError_def)
qed
lemma Child_GetName_NewChild [simp]:
  "Child_GetName (NewChild nm description argType handler) = nm"
  by (simp add: NewChild_def)

theorem HandleChildren_handler_error_witness:
  "parent_child_err = NewParent ''test_parent_child_err'' ''desc_test_parent_child_err''
      [createTestChildFn testArgs_type ''child1'' ''out1'' False,
       createTestChildFn testArgs_type ''childWithError'' [] True]
   \<and> Parent_GetChildren parent_child_err
        (ToolKitChild_Name \<lparr>ToolKitChild_Name = ''childWithError'', Args = ''v1b''\<rparr>)
       = Some (NewChild ''childWithError'' ''desc_childWithError'' testArgs_type
                 (test_handler ''childWithError'' [] True))
   \<and> arg_unmarshal testArgs_type (Args \<lparr>ToolKitChild_Name = ''childWithError'', Args = ''v1b''\<rparr>)
       = Inr \<lparr>Val = ''v1b''\<rparr>
   \<and> snd (Parent_HandleChildren parent_child_err ()
             [\<lparr>ToolKitChild_Name = ''child1'', Args = ''v1a''\<rparr>] 0) = 1
   \<and> test_handler ''childWithError'' [] True () \<lparr>Val = ''v1b''\<rparr> 1
       = ((None, Some (PlainErr ''child_err_childWithError'')), 2)
   \<and> (\<exists>e. ChildsResponses (fst (Parent_HandleChildren parent_child_err ()
               ([\<lparr>ToolKitChild_Name = ''child1'', Args = ''v1a''\<rparr>]
                @ [\<lparr>ToolKitChild_Name = ''childWithError'', Args = ''v1b''\<rparr>]
                @ [\<lparr>ToolKitChild_Name = ''child1'', Args = ''v2a''\<rparr>]) 0)) =
             [\<lparr>ChildResponse_Name = ''child1'', Response = ResultResponse \<lparr>Res = ''out1:v1a''\<rparr>\<rparr>]
             @ [\<lparr>ChildResponse_Name = ''childWithError'',
                 Response = ErrorResponse (ToolKitErr e)\<rparr>]
             @ [\<lparr>ChildResponse_Name = ''child1'', Response = ResultResponse \<lparr>Res = ''out1:v2a''\<rparr>\<rparr>]
           \<and> Code e = ''handler_execution_error''
           \<and> sublist ''child_err_childWithError'' (Message e))"
proof -
  let ?reqE = "\<lparr>ToolKitChild_Name = ''childWithError'', Args = ''v1b''\<rparr>"
  have h1: "parent_child_err = NewParent ''test_parent_child_err'' ''desc_test_parent_child_err''
      [createTestChildFn testArgs_type ''child1'' ''out1'' False,
       createTestChildFn testArgs_type ''childWithError'' [] True]"
    by (simp add: parent_child_err_def createTestParent_def)
  have h2: "Parent_GetChildren parent_child_err (ToolKitChild_Name ?reqE)
       = Some (NewChild ''childWithError'' ''desc_childWithError'' testArgs_type
                 (test_handler ''childWithError'' [] True))"
    by (simp add: parent_child_err_def createTestParent_def NewParent_def createTestChildFn_def)
  have h3: "arg_unmarshal testArgs_type (Args ?reqE) = Inr \<lparr>Val = ''v1b''\<rparr>"
    by (simp add: testArgs_type_def table_unmarshal_def)
  have h4: "snd (Parent_HandleChildren parent_child_err ()
                 [\<lparr>ToolKitChild_Name = ''child1'', Args = ''v1a''\<rparr>] 0) = 1"
    by (simp add: fixture_defs engine_defs)
  have h5: "test_handler ''childWithError'' [] True () \<lparr>Val = ''v1b''\<rparr> 1
       = ((None, Some (PlainErr ''child_err_childWithError'')), 2)"
    by (simp add: test_handler_def)
  have b: "ChildsResponses (fst (Parent_HandleChildren parent_child_err ()
               [\<lparr>ToolKitChild_Name = ''child1'', Args = ''v1a''\<rparr>] 0)) =
             [\<lparr>ChildResponse_Name = ''child1'', Response = ResultResponse \<lparr>Res = ''out1:v1a''\<rparr>\<rparr>]"
    by (simp add: fixture_defs engine_defs)
  have a: "ChildsResponses (fst (Parent_HandleChildren parent_child_err ()
               [\<lparr>ToolKitChild_Name = ''child1'', Args = ''v2a''\<rparr>] 2)) =
             [\<lparr>ChildResponse_Name = ''child1'', Response = ResultResponse \<lparr>Res = ''out1:v2a''\<rparr>\<rparr>]"
    by (simp add: fixture_defs engine_defs)
  note X = HandleChildren_handler_error
      [where parent = parent_child_err and pn = "''test_parent_child_err''"
         and pd = "''desc_test_parent_child_err''"
         and children = "[createTestChildFn testArgs_type ''child1'' ''out1'' False,
                          createTestChildFn testArgs_type ''childWithError'' [] True]"
         and req = "?reqE" and cn = "''childWithError''" and cd = "''desc_childWithError''"
         and argType = testArgs_type and handler = "test_handler ''childWithError'' [] True"
         and typedArgs = "\<lparr>Val = ''v1b''\<rparr>" and ctx = "()" and s = 0 and ?s1.0 = 1
         and ?s2.0 = 2 and result = None and err = "PlainErr ''child_err_childWithError''"
         and before = "[\<lparr>ToolKitChild_Name = ''child1'', Args = ''v1a''\<rparr>]"
         and after = "[\<lparr>ToolKitChild_Name = ''child1'', Args = ''v2a''\<rparr>]",
       OF h1 h2 h3 h4 h5]
  have c: "\<exists>e. ChildsResponses (fst (Parent_HandleChildren parent_child_err ()
               ([\<lparr>ToolKitChild_Name = ''child1'', Args = ''v1a''\<rparr>]
                @ [\<lparr>ToolKitChild_Name = ''childWithError'', Args = ''v1b''\<rparr>]
                @ [\<lparr>ToolKitChild_Name = ''child1'', Args = ''v2a''\<rparr>]) 0)) =
             [\<lparr>ChildResponse_Name = ''child1'', Response = ResultResponse \<lparr>Res = ''out1:v1a''\<rparr>\<rparr>]
             @ [\<lparr>ChildResponse_Name = ''childWithError'',
                 Response = ErrorResponse (ToolKitErr e)\<rparr>]
             @ [\<lparr>ChildResponse_Name = ''child1'', Response = ResultResponse \<lparr>Res = ''out1:v2a''\<rparr>\<rparr>]
           \<and> Code e = ''handler_execution_error''
           \<and> sublist ''child_err_childWithError'' (Message e)"
    using X unfolding a b by simp
  show ?thesis
    by (intro conjI h1 h2 h3 h4 h5 c)
qed

subsection \<open>The response mirrors the request\<close>

lemma find_SomeD:
  "find P xs = Some x \<Longrightarrow> P x \<and> x \<in> set xs"
  by (induction xs) (auto split: if_splits)

lemma New_registered:
  assumes "parents (fst (New nm ps)) k = Some p"
  shows "Some p \<in> set ps \<and> Parent_GetName p = k"
proof -
  from assms have "find (\<lambda>p. Parent_GetName p = k)
                     (rev (map the (filter (\<lambda>p. p \<noteq> None) ps))) = Some p"
    by (simp add: New_parents)
  from find_SomeD [OF this] show ?thesis by auto
qed

lemma NewParent_answers_each_child:
  "answers_each_child (NewParent n d cs)"
  by (simp add: answers_each_child_def NewParent_def HandleChildren_loop_names)

lemma processParents_names:
  fixes t :: "('c, 's, 'r) Toolkit"
  assumes "\<And>k p. parents t k = Some p \<Longrightarrow> Parent_GetName p = k \<and> answers_each_child p"
  shows "map ParentResponse_Name (Responses (fst (processParents t ctx reqs r s))) =
           map ParentResponse_Name (Responses r) @ map ToolKitParent_Name reqs
       \<and> map (\<lambda>pr. map ChildResponse_Name (ChildsResponses pr))
             (Responses (fst (processParents t ctx reqs r s))) =
           map (\<lambda>pr. map ChildResponse_Name (ChildsResponses pr)) (Responses r)
           @ map (\<lambda>q. if parents t (ToolKitParent_Name q) = None then [''_parent_error'']
                       else map ToolKitChild_Name (ToolKitChilds q)) reqs"
proof (induction reqs arbitrary: r s)
  case Nil
  show ?case by simp
next
  case (Cons q reqs)
  show ?case
  proof (cases "parents t (ToolKitParent_Name q)")
    case None
    then show ?thesis by (simp add: Cons.IH)
  next
    case (Some p)
    obtain pr s' where h: "Parent_HandleChildren p ctx (ToolKitChilds q) s = (pr, s')"
      by (cases "Parent_HandleChildren p ctx (ToolKitChilds q) s")
    from assms [OF Some]
    have "ParentResponse_Name (fst (Parent_HandleChildren p ctx (ToolKitChilds q) s))
            = ToolKitParent_Name q"
      and "map ChildResponse_Name
             (ChildsResponses (fst (Parent_HandleChildren p ctx (ToolKitChilds q) s)))
           = map ToolKitChild_Name (ToolKitChilds q)"
      by (simp_all add: answers_each_child_def)
    with h have "ParentResponse_Name pr = ToolKitParent_Name q"
      and "map ChildResponse_Name (ChildsResponses pr) = map ToolKitChild_Name (ToolKitChilds q)"
      by simp_all
    then show ?thesis using Some h by (simp add: Cons.IH)
  qed
qed

text \<open>
  C1, as stated, fails where a requested parent is not registered: its entry holds the
  single child entry \<open>_parent_error\<close>, however many children the request lists there.
  The request \<open>ghost_request\<close> lists two children under the unregistered parent
  \<open>ghost\<close>.
\<close>

theorem HandleToolKit_child_entries_counterexample:
  "test_requests ''ghost'' = Inr ghost_request
   \<and> map ToolKitChild_Name (ToolKitChilds (ToolKitParents ghost_request ! 0)) = [''c1b'', ''c1a'']
   \<and> map ChildResponse_Name
         (ChildsResponses (Responses (fst (fst (HandleToolKit test_requests test_toolkit ()
                                                  ''ghost'' 0))) ! 0))
       = [''_parent_error'']"
  by (simp add: fixture_defs engine_defs)

text \<open>
  C1, amended. Let every registered parent be registered under its name and answer
  \<open>HandleChildren\<close> with one child entry for each requested child, in the order of the
  request and with the requested names (the parents built by \<open>NewParent\<close> do). Then
  for every decoded request: the response has one parent entry for each parent of the
  request, in the order of the request and with the requested names; the entry of a
  registered parent has one child entry for each child of the request, in the order of
  the request and with the requested names; the entry of an unregistered parent has the
  single child entry \<open>_parent_error\<close>.
\<close>

theorem HandleToolKit_mirrors_request:
  fixes t :: "('c, 's, 'r) Toolkit"
  assumes "unmarshal input = Inr req"
    and "\<forall>k parent. parents t k = Some parent \<longrightarrow>
           Parent_GetName parent = k \<and> answers_each_child parent"
  shows "map ParentResponse_Name
           (Responses (fst (fst (HandleToolKit unmarshal t ctx input s))))
         = map ToolKitParent_Name (ToolKitParents req)
       \<and> map (\<lambda>pr. map ChildResponse_Name (ChildsResponses pr))
           (Responses (fst (fst (HandleToolKit unmarshal t ctx input s))))
         = map (\<lambda>q. if parents t (ToolKitParent_Name q) = None
                     then [''_parent_error'']
                     else map ToolKitChild_Name (ToolKitChilds q))
             (ToolKitParents req)"
proof -
  let ?r0 = "\<lparr>ToolKitResponse_Name = name t, Responses = []\<rparr> :: 'r ToolKitResponse"
  have inv: "\<And>k p. parents t k = Some p \<Longrightarrow> Parent_GetName p = k \<and> answers_each_child p"
    using assms(2) by blast
  show ?thesis
  proof (cases "ToolKitParents req = []")
    case True
    then show ?thesis using assms(1)
      by (simp add: HandleToolKit_def parseToolKitInput_def processToolKit_def)
  next
    case False
    have H: "HandleToolKit unmarshal t ctx input s =
               ((fst (processParents t ctx (ToolKitParents req) ?r0 s), None),
                snd (processParents t ctx (ToolKitParents req) ?r0 s))"
      using assms(1) False by (rule HandleToolKit_decoded)
    from processParents_names [of t ctx "ToolKitParents req" ?r0 s] inv
    show ?thesis unfolding H by simp
  qed
qed

theorem HandleToolKit_mirrors_request_witness:
  "test_requests ''ghost'' = Inr ghost_request
   \<and> answers_each_child parent1 \<and> answers_each_child parent2
   \<and> map ParentResponse_Name
        (Responses (fst (fst (HandleToolKit test_requests test_toolkit () ''ghost'' 0))))
       = [''ghost'', ''parent2'']
   \<and> map (\<lambda>pr. map ChildResponse_Name (ChildsResponses pr))
        (Responses (fst (fst (HandleToolKit test_requests test_toolkit () ''ghost'' 0))))
       = [[''_parent_error''], [''c2a'']]"
proof -
  have h1: "test_requests ''ghost'' = Inr ghost_request"
    by (simp add: test_requests_def table_unmarshal_def)
  have a: "answers_each_child parent1" "answers_each_child parent2"
    by (simp_all add: parent1_def parent2_def createTestParent_def NewParent_answers_each_child)
  have h2: "\<forall>k parent. parents test_toolkit k = Some parent \<longrightarrow>
              Parent_GetName parent = k \<and> answers_each_child parent"
  proof (intro allI impI)
    fix k parent
    assume r: "parents test_toolkit k = Some parent"
    from New_registered [OF r [unfolded test_toolkit_def]] a
    show "Parent_GetName parent = k \<and> answers_each_child parent" by auto
  qed
  have l: "parents test_toolkit ''ghost'' = None" "parents test_toolkit ''parent2'' \<noteq> None"
    by (simp_all add: fixture_defs)
  note X = HandleToolKit_mirrors_request
      [where unmarshal = test_requests and input = "''ghost''" and req = ghost_request
         and t = test_toolkit and ctx = "()" and s = 0, OF h1 h2]
  have c: "map ParentResponse_Name
        (Responses (fst (fst (HandleToolKit test_requests test_toolkit () ''ghost'' 0))))
       = [''ghost'', ''parent2'']
   \<and> map (\<lambda>pr. map ChildResponse_Name (ChildsResponses pr))
        (Responses (fst (fst (HandleToolKit test_requests test_toolkit () ''ghost'' 0))))
       = [[''_parent_error''], [''c2a'']]"
    using X l by (simp add: ghost_request_def)
  show ?thesis
    by (intro conjI h1 a conjunct1 [OF c] conjunct2 [OF c])
qed

subsection \<open>Reading the manifest back\<close>

lemma read_manifest_other:
  "c \<noteq> CHR ''<'' \<Longrightarrow> read_manifest (c # cs) = read_manifest cs"
  by (simp add: parent_tag_def child_tag_def)

lemma read_manifest_skip:
  "CHR ''<'' \<notin> set a \<Longrightarrow> read_manifest (a @ b) = read_manifest b"
  by (induction a) (auto simp: read_manifest_other simp del: read_manifest.simps)

lemma quoted_append:
  "CHR 0x22 \<notin> set a \<Longrightarrow> quoted (a @ CHR 0x22 # b) = a"
  by (auto simp: quoted_def takeWhile_tail)

lemma read_manifest_header:
  assumes "CHR ''<'' \<notin> set nm"
  shows \<open>read_manifest
     (''In this environment, you have access to the following <toolkit name="'' @ nm
      @ ''">:'' @ [CHR 0x0A]
      @ ''A <toolkit> is a collection of <parents>, a <parent> is a collection of <childs>.''
      @ [CHR 0x0A]
      @ ''Below is the list of available <parents> and their <childs>:'' @ [CHR 0x0A] @ rest)
     = read_manifest rest\<close>
proof -
  have 1: \<open>read_manifest (''In this environment, you have access to the following <toolkit name="'' @ x)
        = read_manifest x\<close> for x
    by (simp add: parent_tag_def child_tag_def)
  have 2: \<open>read_manifest (''">:'' @ [CHR 0x0A]
      @ ''A <toolkit> is a collection of <parents>, a <parent> is a collection of <childs>.''
      @ [CHR 0x0A]
      @ ''Below is the list of available <parents> and their <childs>:'' @ [CHR 0x0A] @ x)
      = read_manifest x\<close> for x
    by (simp add: parent_tag_def child_tag_def)
  show ?thesis
    unfolding 1 read_manifest_skip [OF assms] 2 ..
qed

lemma read_manifest_footer:
  "read_manifest ''</toolkit>'' = []"
  by (simp add: parent_tag_def child_tag_def)

lemma read_manifest_parent_line:
  assumes "plain_text nm" and "plain_text d"
  shows \<open>read_manifest (''<parent name="'' @ nm @ ''" description="'' @ d @ ''"></parent>''
                         @ [CHR 0x0A] @ rest)
         = ParentEntry nm d # read_manifest rest\<close>
proof -
  from assms have n: "CHR ''<'' \<notin> set nm" "CHR 0x22 \<notin> set nm"
    and d: "CHR ''<'' \<notin> set d" "CHR 0x22 \<notin> set d"
    by (simp_all add: plain_text_def)
  have rp: \<open>read_parent (nm @ ''" description="'' @ d @ ''"></parent>'' @ [CHR 0x0A] @ rest)
            = ParentEntry nm d\<close>
    using quoted_append [OF n(2)] quoted_append [OF d(2)]
    by (simp add: read_parent_def Let_def)
  have 1: \<open>read_manifest (''<parent name="'' @ x) = read_parent x # read_manifest x\<close> for x
    by (simp add: parent_tag_def child_tag_def)
  have 2: \<open>read_manifest (''" description="'' @ x) = read_manifest x\<close> for x
    by (simp add: parent_tag_def child_tag_def)
  have 3: \<open>read_manifest (''"></parent>'' @ [CHR 0x0A] @ x) = read_manifest x\<close> for x
    by (simp add: parent_tag_def child_tag_def)
  show ?thesis
    unfolding 1 rp read_manifest_skip [OF n(1)] 2 read_manifest_skip [OF d(1)] 3 ..
qed

lemma read_manifest_child_line:
  assumes "plain_text nm" and "plain_text d" and "CHR ''<'' \<notin> set txt"
  shows \<open>read_manifest (''<child name="'' @ nm @ ''" description="'' @ d
                         @ ''"><input_schema>'' @ txt @ ''</input_schema></child>''
                         @ [CHR 0x0A] @ rest)
         = ChildEntry nm d txt # read_manifest rest\<close>
proof -
  from assms have n: "CHR ''<'' \<notin> set nm" "CHR 0x22 \<notin> set nm"
    and d: "CHR ''<'' \<notin> set d" "CHR 0x22 \<notin> set d"
    by (simp_all add: plain_text_def)
  have tw: "takeWhile (\<lambda>c. c \<noteq> CHR ''<'') (txt @ CHR ''<'' # x) = txt" for x
    using assms(3) by (auto simp: takeWhile_tail)
  have rc: \<open>read_child (nm @ ''" description="'' @ d @ ''"><input_schema>'' @ txt
                         @ ''</input_schema></child>'' @ [CHR 0x0A] @ rest)
            = ChildEntry nm d txt\<close>
    using quoted_append [OF n(2)] quoted_append [OF d(2)] tw
    by (simp add: read_child_def Let_def del: drop_drop)
  have 1: \<open>read_manifest (''<child name="'' @ x) = read_child x # read_manifest x\<close> for x
    by (simp add: parent_tag_def child_tag_def)
  have 2: \<open>read_manifest (''" description="'' @ x) = read_manifest x\<close> for x
    by (simp add: parent_tag_def child_tag_def)
  have 3: \<open>read_manifest (''"><input_schema>'' @ x) = read_manifest x\<close> for x
    by (simp add: parent_tag_def child_tag_def)
  have 4: \<open>read_manifest (''</input_schema></child>'' @ [CHR 0x0A] @ x) = read_manifest x\<close> for x
    by (simp add: parent_tag_def child_tag_def)
  show ?thesis
    unfolding 1 rc read_manifest_skip [OF n(1)] 2 read_manifest_skip [OF d(1)] 3
      read_manifest_skip [OF assms(3)] 4 ..
qed

lemma read_manifest_describe_child:
  assumes "plain_child marshal child"
  shows "read_manifest (describe_child marshal child @ rest) =
           ChildEntry (Child_GetName child) (Child_GetDescription child) (schemaStr marshal child)
           # read_manifest rest"
  using assms read_manifest_child_line
          [of "Child_GetName child" "Child_GetDescription child" "schemaStr marshal child" rest]
  by (simp add: describe_child_def plain_child_def)

lemma read_manifest_children:
  assumes "\<forall>child \<in> set cs. plain_child marshal child"
  shows "read_manifest (concat (map (describe_child marshal) cs) @ rest) =
           map (\<lambda>child. ChildEntry (Child_GetName child) (Child_GetDescription child)
                            (schemaStr marshal child)) cs
           @ read_manifest rest"
  using assms by (induction cs) (simp_all add: read_manifest_describe_child)

lemma range_values_empty:
  "dom m = {} \<Longrightarrow> range_values m ks = []"
  by (induction ks) (auto simp: range_values_def split: option.splits)

lemma range_values_set:
  "v \<in> set (range_values m ks) \<Longrightarrow> \<exists>k. m k = Some v"
  by (induction ks) (auto simp: range_values_def split: option.splits)

lemma read_manifest_describe_parent:
  assumes "plain_text (Parent_GetName parent)" and "plain_text (Parent_GetDescription parent)"
    and "\<forall>j child. Parent_GetChildren parent j = Some child \<longrightarrow> plain_child marshal child"
  shows "read_manifest (describe_parent marshal parent childOrder @ rest) =
           ParentEntry (Parent_GetName parent) (Parent_GetDescription parent)
           # map (\<lambda>child. ChildEntry (Child_GetName child) (Child_GetDescription child)
                              (schemaStr marshal child))
               (range_values (Parent_GetChildren parent) childOrder)
           @ read_manifest rest"
proof -
  let ?cs = "range_values (Parent_GetChildren parent) childOrder"
  have pc: "\<forall>child \<in> set ?cs. plain_child marshal child"
    using assms(3) range_values_set by fastforce
  have close: \<open>read_manifest (''</parent>'' @ [CHR 0x0A] @ x) = read_manifest x\<close> for x
    by (simp add: parent_tag_def child_tag_def)
  have nt: \<open>read_manifest
     (''**NOTE**: A child tool cannot be invoked directly, the parent tool must be invoked first via its parent.''
      @ [CHR 0x0A] @ x) = read_manifest x\<close> for x
    by (simp add: read_manifest_other del: read_manifest.simps)
  have body: "read_manifest
      ((if dom (Parent_GetChildren parent) \<noteq> {}
        then concat (map (describe_child marshal) ?cs) @ ''</parent>'' @ [CHR 0x0A]
        else ''</parent>'' @ [CHR 0x0A]) @ x)
      = map (\<lambda>child. ChildEntry (Child_GetName child) (Child_GetDescription child)
                         (schemaStr marshal child)) ?cs
        @ read_manifest x" for x
  proof (cases "dom (Parent_GetChildren parent) \<noteq> {}")
    case True
    from read_manifest_children [OF pc, of "''</parent>'' @ [CHR 0x0A] @ x"] close [of x]
    show ?thesis using True by simp
  next
    case False
    then have "?cs = []" by (simp add: range_values_empty)
    then show ?thesis using False close [of x] by simp
  qed
  from read_manifest_parent_line [OF assms(1,2)] body nt
  show ?thesis
    by (simp add: describe_parent_def Let_def del: read_manifest.simps)
qed

lemma read_manifest_parents:
  fixes t :: "('c, 's, 'r) Toolkit"
  assumes "plain_registry marshal t"
  shows "read_manifest
           (concat (map (\<lambda>k. case parents t k of
                                 None \<Rightarrow> []
                               | Some parent \<Rightarrow> describe_parent marshal parent (childOrder k)) ks)
            @ rest) =
         concat (map (\<lambda>k. case parents t k of
                               None \<Rightarrow> []
                             | Some parent \<Rightarrow>
                                 ParentEntry (Parent_GetName parent) (Parent_GetDescription parent)
                                 # map (\<lambda>child. ChildEntry (Child_GetName child)
                                                    (Child_GetDescription child)
                                                    (schemaStr marshal child))
                                     (range_values (Parent_GetChildren parent) (childOrder k))) ks)
         @ read_manifest rest"
proof (induction ks)
  case Nil
  show ?case by simp
next
  case (Cons k ks)
  show ?case
  proof (cases "parents t k")
    case None
    then show ?thesis using Cons.IH by simp
  next
    case (Some parent)
    with assms have "plain_text (Parent_GetName parent)"
      and "plain_text (Parent_GetDescription parent)"
      and "\<forall>j child. Parent_GetChildren parent j = Some child \<longrightarrow> plain_child marshal child"
      by (auto simp: plain_registry_def)
    from read_manifest_describe_parent [OF this]
    show ?thesis using Some Cons.IH by (simp del: read_manifest.simps)
  qed
qed

lemma read_manifest_GetToolkitDescription:
  fixes t :: "('c, 's, 'r) Toolkit"
  assumes "plain_registry marshal t"
  shows "read_manifest (GetToolkitDescription marshal t parentOrder childOrder) =
         concat (map (\<lambda>k. case parents t k of
                               None \<Rightarrow> []
                             | Some parent \<Rightarrow>
                                 ParentEntry (Parent_GetName parent) (Parent_GetDescription parent)
                                 # map (\<lambda>child. ChildEntry (Child_GetName child)
                                                    (Child_GetDescription child)
                                                    (schemaStr marshal child))
                                     (range_values (Parent_GetChildren parent) (childOrder k)))
                   parentOrder)"
proof -
  from assms have n: "CHR ''<'' \<notin> set (name t)" by (simp add: plain_registry_def)
  show ?thesis
    unfolding GetToolkitDescription_def
    using read_manifest_header [OF n]
          read_manifest_parents [OF assms, of childOrder parentOrder "''</toolkit>''"]
          read_manifest_footer
    by (simp del: read_manifest.simps)
qed

lemma foldr_attach_children:
  "foldr attach_entry (map (\<lambda>child. ChildEntry (f child) (g child) (h child)) cs) (pending, groups)
     = (map f cs @ pending, groups)"
  by (induction cs) simp_all

lemma manifest_tree_groups:
  "foldr attach_entry
     (concat (map (\<lambda>k. case m k of
                          None \<Rightarrow> []
                        | Some parent \<Rightarrow>
                            ParentEntry (pn parent) (pd parent)
                            # map (\<lambda>child. ChildEntry (f child) (g child) (h child))
                                (cs parent k)) ks))
     ([], []) =
   ([], concat (map (\<lambda>k. case m k of
                             None \<Rightarrow> []
                           | Some parent \<Rightarrow> [(pn parent, map f (cs parent k))]) ks))"
proof (induction ks)
  case Nil
  show ?case by simp
next
  case (Cons k ks)
  show ?case
  proof (cases "m k")
    case None
    then show ?thesis using Cons.IH by simp
  next
    case (Some parent)
    then show ?thesis using Cons.IH by (simp add: foldr_attach_children)
  qed
qed

lemma range_values_keyed:
  assumes "set ks \<subseteq> dom m" and "\<And>j v. m j = Some v \<Longrightarrow> f v = j"
  shows "map f (range_values m ks) = ks"
  using assms(1)
proof (induction ks)
  case Nil
  show ?case by (simp add: range_values_def)
next
  case (Cons k ks)
  then obtain v where v: "m k = Some v" by auto
  from Cons have "map f (range_values m ks) = ks" by simp
  with v assms(2) [OF v] show ?case by (simp add: range_values_def)
qed

lemma range_values_member:
  "m j = Some v \<Longrightarrow> j \<in> set ks \<Longrightarrow> v \<in> set (range_values m ks)"
  by (induction ks) (auto simp: range_values_def split: option.splits)

lemma NewParent_loop_keyed:
  "NewParent_loop cs m j = Some c \<Longrightarrow> m j = Some c \<or> Child_GetName c = j"
proof (induction cs arbitrary: m)
  case Nil
  then show ?case by simp
next
  case (Cons a cs)
  from Cons.prems have "NewParent_loop cs (m(Child_GetName a \<mapsto> a)) j = Some c" by simp
  from Cons.IH [OF this] show ?case by (auto split: if_splits)
qed

lemma NewParent_children_keyed:
  "Parent_GetChildren (NewParent n d cs) j = Some c \<Longrightarrow> Child_GetName c = j"
  using NewParent_loop_keyed [of cs Map.empty j c] by (simp add: NewParent_def)

lemma New_NewParent_keyed:
  assumes "\<forall>p. Some p \<in> set ps \<longrightarrow> (\<exists>n d cs. p = NewParent n d cs)"
  shows "keyed_by_name (fst (New nm ps))"
  unfolding keyed_by_name_def
proof (intro allI impI)
  fix k parent
  assume r: "parents (fst (New nm ps)) k = Some parent"
  from New_registered [OF r] have reg: "Some parent \<in> set ps" and k: "Parent_GetName parent = k"
    by simp_all
  from reg assms obtain n d cs where "parent = NewParent n d cs" by blast
  with k NewParent_children_keyed
  show "Parent_GetName parent = k
        \<and> (\<forall>j child. Parent_GetChildren parent j = Some child \<longrightarrow> Child_GetName child = j)"
    by blast
qed

lemma manifest_tree_traversal:
  fixes t :: "('c, 's, 'r) Toolkit"
  assumes "keyed_by_name t"
    and "plain_registry marshal t"
    and "legal_traversal t parentOrder childOrder"
  shows "manifest_tree (read_manifest (GetToolkitDescription marshal t parentOrder childOrder))
         = map (\<lambda>k. (k, childOrder k)) parentOrder"
proof -
  have tree: "manifest_tree
           (read_manifest (GetToolkitDescription marshal t parentOrder childOrder))
         = concat (map (\<lambda>k. case parents t k of
                                None \<Rightarrow> []
                              | Some parent \<Rightarrow>
                                  [(Parent_GetName parent,
                                    map Child_GetName
                                      (range_values (Parent_GetChildren parent) (childOrder k)))])
                     parentOrder)"
    unfolding read_manifest_GetToolkitDescription [OF assms(2)] manifest_tree_def
    by (simp add: manifest_tree_groups
          [where m = "parents t" and pn = Parent_GetName and pd = Parent_GetDescription
             and f = Child_GetName and g = Child_GetDescription and h = "schemaStr marshal"
             and cs = "\<lambda>parent k. range_values (Parent_GetChildren parent) (childOrder k)"])
  have each: "(case parents t k of
                 None \<Rightarrow> []
               | Some parent \<Rightarrow>
                   [(Parent_GetName parent,
                     map Child_GetName (range_values (Parent_GetChildren parent) (childOrder k)))])
              = [(k, childOrder k)]" if k: "k \<in> set parentOrder" for k
  proof -
    from k assms(3) obtain p where p: "parents t k = Some p"
      by (auto simp: legal_traversal_def range_orders_def)
    from p assms(1) have nmk: "Parent_GetName p = k"
      and ck: "\<And>j c. Parent_GetChildren p j = Some c \<Longrightarrow> Child_GetName c = j"
      by (auto simp: keyed_by_name_def)
    from p assms(3) have ro: "range_orders (Parent_GetChildren p) (childOrder k)"
      by (auto simp: legal_traversal_def)
    then have sub: "set (childOrder k) \<subseteq> dom (Parent_GetChildren p)"
      by (simp add: range_orders_def)
    have "map Child_GetName (range_values (Parent_GetChildren p) (childOrder k)) = childOrder k"
      using sub ck by (intro range_values_keyed) auto
    with p nmk show ?thesis by simp
  qed
  have "concat (map (\<lambda>k. case parents t k of
                                None \<Rightarrow> []
                              | Some parent \<Rightarrow>
                                  [(Parent_GetName parent,
                                    map Child_GetName
                                      (range_values (Parent_GetChildren parent) (childOrder k)))])
                     parentOrder)
        = concat (map (\<lambda>k. [(k, childOrder k)]) parentOrder)"
    using each by (intro arg_cong [where f = concat] map_cong) auto
  also have "\<dots> = map (\<lambda>k. (k, childOrder k)) parentOrder"
    by (induction parentOrder) simp_all
  finally show ?thesis using tree by simp
qed

subsection \<open>The order of the manifest\<close>

text \<open>
  C2, as stated, fails: the loops of \<open>GetToolkitDescription\<close> run over Go maps and
  nothing is sorted. For the registry \<open>test_toolkit\<close> the runtime may visit
  \<open>parent2\<close> before \<open>parent1\<close>, and \<open>c1b\<close> before \<open>c1a\<close>; the manifest then
  lists them so, which is not sorted by name, and another call may list them
  otherwise.
\<close>

theorem GetToolkitDescription_order_counterexample:
  "range_orders (parents test_toolkit) [''parent2'', ''parent1'']
   \<and> range_orders (Parent_GetChildren parent1) [''c1b'', ''c1a'']
   \<and> range_orders (Parent_GetChildren parent2) [''c2a'']
   \<and> manifest_tree (read_manifest (GetToolkitDescription test_marshal test_toolkit
                                       [''parent2'', ''parent1''] other_child_order))
       = [(''parent2'', [''c2a'']), (''parent1'', [''c1b'', ''c1a''])]
   \<and> \<not> sorted [''parent2'', ''parent1'']
   \<and> \<not> sorted [''c1b'', ''c1a'']
   \<and> range_orders (parents test_toolkit) [''parent1'', ''parent2'']
   \<and> range_orders (Parent_GetChildren parent1) [''c1a'', ''c1b'']
   \<and> manifest_tree (read_manifest (GetToolkitDescription test_marshal test_toolkit
                                       [''parent1'', ''parent2''] sorted_child_order))
       = [(''parent1'', [''c1a'', ''c1b'']), (''parent2'', [''c2a''])]"
proof -
  have r: "range_orders (parents test_toolkit) [''parent2'', ''parent1'']"
    "range_orders (Parent_GetChildren parent1) [''c1b'', ''c1a'']"
    "range_orders (Parent_GetChildren parent2) [''c2a'']"
    "range_orders (parents test_toolkit) [''parent1'', ''parent2'']"
    "range_orders (Parent_GetChildren parent1) [''c1a'', ''c1b'']"
    by (auto simp: range_orders_def fixture_defs)
  have s: "\<not> sorted [''parent2'', ''parent1'']" "\<not> sorted [''c1b'', ''c1a'']"
    by simp_all
  have p: "plain_registry test_marshal test_toolkit"
    by (auto simp: plain_registry_def plain_child_def plain_text_def schemaStr_def
          test_marshal_def GenerateSchema_def Let_def fixture_defs split: if_splits)
  have b: "\<forall>p. Some p \<in> set [Some parent1, Some parent2] \<longrightarrow> (\<exists>n d cs. p = NewParent n d cs)"
    by (auto simp: parent1_def parent2_def createTestParent_def)
  have k: "keyed_by_name test_toolkit"
    unfolding test_toolkit_def using b by (rule New_NewParent_keyed)
  have l1: "legal_traversal test_toolkit [''parent2'', ''parent1''] other_child_order"
    by (auto simp: legal_traversal_def range_orders_def fixture_defs split: if_splits)
  have l2: "legal_traversal test_toolkit [''parent1'', ''parent2''] sorted_child_order"
    by (auto simp: legal_traversal_def range_orders_def fixture_defs split: if_splits)
  have t1: "manifest_tree (read_manifest (GetToolkitDescription test_marshal test_toolkit
                                       [''parent2'', ''parent1''] other_child_order))
       = [(''parent2'', [''c2a'']), (''parent1'', [''c1b'', ''c1a''])]"
    using manifest_tree_traversal
            [where t = test_toolkit and marshal = test_marshal
               and parentOrder = "[''parent2'', ''parent1'']"
               and childOrder = other_child_order, OF k p l1]
    by simp
  have t2: "manifest_tree (read_manifest (GetToolkitDescription test_marshal test_toolkit
                                       [''parent1'', ''parent2''] sorted_child_order))
       = [(''parent1'', [''c1a'', ''c1b'']), (''parent2'', [''c2a''])]"
    using manifest_tree_traversal
            [where t = test_toolkit and marshal = test_marshal
               and parentOrder = "[''parent1'', ''parent2'']"
               and childOrder = sorted_child_order, OF k p l2]
    by simp
  show ?thesis
    by (intro conjI r s t1 t2)
qed

text \<open>
  C2, amended. For a toolkit whose parents and children are registered under their
  names, whose names and descriptions contain neither \<^verbatim>\<open><\<close> nor a double quote and
  whose toolkit name and serialised schemas contain no \<^verbatim>\<open><\<close>, and for every order in
  which the runtime may visit the entries of the registry maps: the manifest lists
  the registered parents in the order the outer loop visits them and, under each
  parent, its children in the order the inner loop visits them, every parent and
  every child of a parent once. No other order is imposed: the enumeration is that of
  the map iteration, which the language leaves unspecified.
\<close>

theorem GetToolkitDescription_traversal_order:
  fixes t :: "('c, 's, 'r) Toolkit"
  assumes "keyed_by_name t"
    and "plain_registry marshal t"
    and "legal_traversal t parentOrder childOrder"
  shows "manifest_tree
           (read_manifest (GetToolkitDescription marshal t parentOrder childOrder))
         = map (\<lambda>k. (k, childOrder k)) parentOrder
       \<and> distinct parentOrder \<and> set parentOrder = dom (parents t)
       \<and> (\<forall>k parent. parents t k = Some parent \<longrightarrow>
             distinct (childOrder k) \<and> set (childOrder k) = dom (Parent_GetChildren parent))"
  using manifest_tree_traversal [OF assms] assms(3)
  by (simp add: legal_traversal_def range_orders_def)

theorem GetToolkitDescription_traversal_order_witness:
  "(\<exists>n d cs. parent1 = NewParent n d cs) \<and> (\<exists>n d cs. simple_parent = NewParent n d cs)
   \<and> (\<exists>n d cs. emptyP = NewParent n d cs)
   \<and> manifest_tree
         (read_manifest (GetToolkitDescription test_marshal manifest_toolkit
                           [''p2'', ''emptyP'', ''parent1''] manifest_child_order))
       = [(''p2'', [''c2a'']), (''emptyP'', []), (''parent1'', [''c1b'', ''c1a''])]
   \<and> dom (parents manifest_toolkit) = {''p2'', ''emptyP'', ''parent1''}"
proof -
  have b: "\<forall>p. Some p \<in> set [Some parent1, Some simple_parent, Some emptyP]
             \<longrightarrow> (\<exists>n d cs. p = NewParent n d cs)"
    by (auto simp: parent1_def simple_parent_def emptyP_def createTestParent_def)
  have p: "plain_registry test_marshal manifest_toolkit"
    by (auto simp: plain_registry_def plain_child_def plain_text_def schemaStr_def
          test_marshal_def GenerateSchema_def Let_def fixture_defs split: if_splits)
  have l: "legal_traversal manifest_toolkit [''p2'', ''emptyP'', ''parent1''] manifest_child_order"
    by (auto simp: legal_traversal_def range_orders_def fixture_defs split: if_splits)
  have k: "keyed_by_name manifest_toolkit"
    unfolding manifest_toolkit_def using b by (rule New_NewParent_keyed)
  note X = GetToolkitDescription_traversal_order
      [where t = manifest_toolkit and marshal = test_marshal
         and parentOrder = "[''p2'', ''emptyP'', ''parent1'']"
         and childOrder = manifest_child_order, OF k p l]
  from b have e: "\<exists>n d cs. parent1 = NewParent n d cs" "\<exists>n d cs. simple_parent = NewParent n d cs"
    "\<exists>n d cs. emptyP = NewParent n d cs"
    by simp_all
  have t: "manifest_tree
         (read_manifest (GetToolkitDescription test_marshal manifest_toolkit
                           [''p2'', ''emptyP'', ''parent1''] manifest_child_order))
       = [(''p2'', [''c2a'']), (''emptyP'', []), (''parent1'', [''c1b'', ''c1a''])]"
    using X by simp
  have d: "dom (parents manifest_toolkit) = {''p2'', ''emptyP'', ''parent1''}"
    using X by auto
  show ?thesis
    by (intro conjI e t d)
qed

subsection \<open>Completeness of the manifest\<close>

text \<open>
  C9, as stated, fails. Names and descriptions are written into the manifest with no
  escaping: for the registry \<open>tagged_toolkit\<close>, whose only parent \<open>p1\<close> has a
  description that holds a parent tag, the manifest read back holds the parent name
  \<open>p1\<close> twice. And a child name is unique within its parent only: for the registry
  \<open>twin_toolkit\<close>, where the parents \<open>pa\<close> and \<open>pb\<close> each register a child
  \<open>c\<close>, the manifest holds the child name \<open>c\<close> twice.
\<close>

theorem GetToolkitDescription_unescaped_counterexample:
  "dom (parents tagged_toolkit) = {''p1''}
   \<and> map fst (manifest_tree (read_manifest
        (GetToolkitDescription test_marshal tagged_toolkit [''p1''] no_child_order)))
       = [''p1'', ''p1'']
   \<and> dom (parents twin_toolkit) = {''pa'', ''pb''}
   \<and> manifest_tree (read_manifest
        (GetToolkitDescription test_marshal twin_toolkit [''pa'', ''pb''] twin_child_order))
       = [(''pa'', [''c'']), (''pb'', [''c''])]"
proof -
  have d1: "dom (parents tagged_toolkit) = {''p1''}"
    by (auto simp: fixture_defs split: if_splits)
  have look: "parents tagged_toolkit ''p1'' = Some tagged_parent"
    by (simp add: tagged_toolkit_def New_def tagged_parent_def NewParent_def)
  have m1: "read_manifest
        (GetToolkitDescription test_marshal tagged_toolkit [''p1''] no_child_order)
       = [ParentEntry ''p1'' ''<parent name='', ParentEntry ''p1'' ''again'']"
    unfolding GetToolkitDescription_def
    by (simp add: look describe_parent_def tagged_parent_def NewParent_def
          read_manifest_other parent_tag_def child_tag_def read_parent_def quoted_def
          tagged_toolkit_def New_def)
  have t1: "map fst (manifest_tree (read_manifest
        (GetToolkitDescription test_marshal tagged_toolkit [''p1''] no_child_order)))
       = [''p1'', ''p1'']"
    unfolding m1 by (simp add: manifest_tree_def)
  have d2: "dom (parents twin_toolkit) = {''pa'', ''pb''}"
    by (auto simp: fixture_defs split: if_splits)
  have b: "\<forall>p. Some p \<in> set
             [Some (createTestParent ''pa'' [createTestChildFn testArgs_type ''c'' ''ra'' False]),
              Some (createTestParent ''pb'' [createTestChildFn testArgs_type ''c'' ''rb'' False])]
             \<longrightarrow> (\<exists>n d cs. p = NewParent n d cs)"
    by (auto simp: createTestParent_def)
  have k: "keyed_by_name twin_toolkit"
    unfolding twin_toolkit_def using b by (rule New_NewParent_keyed)
  have p: "plain_registry test_marshal twin_toolkit"
    by (auto simp: plain_registry_def plain_child_def plain_text_def schemaStr_def
          test_marshal_def GenerateSchema_def Let_def fixture_defs split: if_splits)
  have l: "legal_traversal twin_toolkit [''pa'', ''pb''] twin_child_order"
    by (auto simp: legal_traversal_def range_orders_def fixture_defs split: if_splits)
  have t2: "manifest_tree (read_manifest
        (GetToolkitDescription test_marshal twin_toolkit [''pa'', ''pb''] twin_child_order))
       = [(''pa'', [''c'']), (''pb'', [''c''])]"
    using manifest_tree_traversal
            [where t = twin_toolkit and marshal = test_marshal
               and parentOrder = "[''pa'', ''pb'']" and childOrder = twin_child_order,
             OF k p l]
    by simp
  show ?thesis
    by (intro conjI d1 t1 d2 t2)
qed

text \<open>
  C9, amended. For a toolkit whose parents and children are registered under their
  names, whose names and descriptions contain neither \<^verbatim>\<open><\<close> nor a double quote and
  whose toolkit name and serialised schemas contain no \<^verbatim>\<open><\<close>, and for every legal run
  of the loops: the manifest read back holds every registered parent name exactly once;
  for every registered parent, also one without children, it holds the block of that
  parent, with every child name registered under that parent exactly once; and it holds
  the entry of every registered child built by \<open>NewChild\<close>, whose inlined schema text,
  parsed, declares as required exactly the fields annotated required in the argument
  type of that child, when the reflector honours the required tags at that type and the
  serialised schema parses back.
\<close>

theorem GetToolkitDescription_complete:
  fixes t :: "('c, 's, 'r) Toolkit"
    and handler :: "'c \<Rightarrow> 'a \<Rightarrow> 's \<Rightarrow> ('s, 'r) HandleResult"
  assumes "keyed_by_name t"
    and "plain_registry marshal t"
    and "legal_traversal t parentOrder childOrder"
  shows "distinct (map fst (manifest_tree (read_manifest
            (GetToolkitDescription marshal t parentOrder childOrder))))
     \<and> set (map fst (manifest_tree (read_manifest
            (GetToolkitDescription marshal t parentOrder childOrder))))
         = dom (parents t)
     \<and> (\<forall>k parent. parents t k = Some parent \<longrightarrow>
           (\<exists>cs. (k, cs) \<in> set (manifest_tree (read_manifest
                     (GetToolkitDescription marshal t parentOrder childOrder)))
                \<and> distinct cs \<and> set cs = dom (Parent_GetChildren parent)))
     \<and> (\<forall>k parent j. parents t k = Some parent
             \<and> Parent_GetChildren parent j = Some (NewChild cn cd argType handler)
             \<and> honours_required_tags argType
             \<and> parses_back marshal unmarshal (GenerateSchema argType) \<longrightarrow>
           (\<exists>schemaText schema.
              ChildEntry cn cd schemaText
                \<in> set (read_manifest (GetToolkitDescription marshal t parentOrder childOrder))
              \<and> unmarshal schemaText = Inr schema
              \<and> schema_required schema
                  = map field_name (filter field_required (arg_shape argType))))"
proof -
  let ?D = "GetToolkitDescription marshal t parentOrder childOrder"
  let ?c = "NewChild cn cd argType handler :: ('c, 's, 'r) Child"
  note tree = manifest_tree_traversal [OF assms]
  from assms(3) have po: "distinct parentOrder" "set parentOrder = dom (parents t)"
    and co: "\<And>k parent. parents t k = Some parent \<Longrightarrow>
               range_orders (Parent_GetChildren parent) (childOrder k)"
    by (auto simp: legal_traversal_def range_orders_def)
  have fsts: "map fst (manifest_tree (read_manifest ?D)) = parentOrder"
    unfolding tree by (simp add: comp_def)
  have blocks: "\<exists>cs. (k, cs) \<in> set (manifest_tree (read_manifest ?D))
                   \<and> distinct cs \<and> set cs = dom (Parent_GetChildren parent)"
    if "parents t k = Some parent" for k parent
  proof -
    from that po(2) have "k \<in> set parentOrder" by auto
    then have "(k, childOrder k) \<in> set (manifest_tree (read_manifest ?D))"
      unfolding tree by auto
    with co [OF that] show ?thesis by (auto simp: range_orders_def)
  qed
  have entry: "ChildEntry cn cd (schemaStr marshal ?c) \<in> set (read_manifest ?D)"
    if p: "parents t k = Some parent" and c: "Parent_GetChildren parent j = Some ?c"
    for k parent j
  proof -
    from p po(2) have k: "k \<in> set parentOrder" by auto
    from co [OF p] c have j: "j \<in> set (childOrder k)" by (auto simp: range_orders_def)
    have "?c \<in> set (range_values (Parent_GetChildren parent) (childOrder k))"
      using c j by (rule range_values_member)
    then have "ChildEntry (Child_GetName ?c) (Child_GetDescription ?c) (schemaStr marshal ?c)
                 \<in> set (map (\<lambda>child. ChildEntry (Child_GetName child)
                                         (Child_GetDescription child) (schemaStr marshal child))
                            (range_values (Parent_GetChildren parent) (childOrder k)))"
      by (simp only: set_map) (rule imageI)
    then show ?thesis
      unfolding read_manifest_GetToolkitDescription [OF assms(2)]
      using k p by (force simp: NewChild_def)
  qed
  have parsed: "\<exists>schemaText schema.
              ChildEntry cn cd schemaText \<in> set (read_manifest ?D)
              \<and> unmarshal schemaText = Inr schema
              \<and> schema_required schema
                  = map field_name (filter field_required (arg_shape argType))"
    if p: "parents t k = Some parent" and c: "Parent_GetChildren parent j = Some ?c"
      and h: "honours_required_tags argType"
      and r: "parses_back marshal unmarshal (GenerateSchema argType)"
    for k parent j
  proof -
    from r obtain schemaBytes where m: "marshal (GenerateSchema argType) = Inr schemaBytes"
      and u: "unmarshal schemaBytes = Inr (GenerateSchema argType)"
      by (auto simp: parses_back_def)
    from m have s: "schemaStr marshal ?c = schemaBytes"
      by (simp add: schemaStr_def NewChild_def)
    from h have q: "schema_required (GenerateSchema argType)
                      = map field_name (filter field_required (arg_shape argType))"
      by (simp add: honours_required_tags_def GenerateSchema_def Let_def)
    from entry [OF p c] s u q show ?thesis by auto
  qed
  show ?thesis
    using fsts po blocks parsed
    by (intro conjI allI impI) auto
qed

theorem GetToolkitDescription_complete_witness:
  "(\<exists>n d cs. parent1 = NewParent n d cs) \<and> (\<exists>n d cs. simple_parent = NewParent n d cs)
   \<and> (\<exists>n d cs. emptyP = NewParent n d cs)
   \<and> parses_back test_marshal test_unmarshal_schema (GenerateSchema SimpleArgs_type)
   \<and> distinct (map fst (manifest_tree (read_manifest
         (GetToolkitDescription test_marshal manifest_toolkit
            [''p2'', ''emptyP'', ''parent1''] manifest_child_order))))
   \<and> set (map fst (manifest_tree (read_manifest
         (GetToolkitDescription test_marshal manifest_toolkit
            [''p2'', ''emptyP'', ''parent1''] manifest_child_order))))
       = dom (parents manifest_toolkit)
   \<and> (\<exists>cs. (''emptyP'', cs) \<in> set (manifest_tree (read_manifest
                 (GetToolkitDescription test_marshal manifest_toolkit
                    [''p2'', ''emptyP'', ''parent1''] manifest_child_order)))
            \<and> distinct cs \<and> set cs = dom (Parent_GetChildren emptyP))
   \<and> (\<exists>schemaText schema.
          ChildEntry ''c2a'' ''desc_c2a'' schemaText
            \<in> set (read_manifest
                    (GetToolkitDescription test_marshal manifest_toolkit
                       [''p2'', ''emptyP'', ''parent1''] manifest_child_order))
          \<and> test_unmarshal_schema schemaText = Inr schema
          \<and> schema_required schema = [''input''])"
proof -
  let ?D = "GetToolkitDescription test_marshal manifest_toolkit
              [''p2'', ''emptyP'', ''parent1''] manifest_child_order"
  have b: "\<forall>p. Some p \<in> set [Some parent1, Some simple_parent, Some emptyP]
             \<longrightarrow> (\<exists>n d cs. p = NewParent n d cs)"
    by (auto simp: parent1_def simple_parent_def emptyP_def createTestParent_def)
  have k: "keyed_by_name manifest_toolkit"
    unfolding manifest_toolkit_def using b by (rule New_NewParent_keyed)
  have p: "plain_registry test_marshal manifest_toolkit"
    by (auto simp: plain_registry_def plain_child_def plain_text_def schemaStr_def
          test_marshal_def GenerateSchema_def Let_def fixture_defs split: if_splits)
  have l: "legal_traversal manifest_toolkit [''p2'', ''emptyP'', ''parent1''] manifest_child_order"
    by (auto simp: legal_traversal_def range_orders_def fixture_defs split: if_splits)
  have h: "honours_required_tags SimpleArgs_type"
    by (simp add: honours_required_tags_def SimpleArgs_type_def test_reflect_def)
  have r: "parses_back test_marshal test_unmarshal_schema (GenerateSchema SimpleArgs_type)"
    by (simp add: parses_back_def test_marshal_def test_unmarshal_schema_def table_unmarshal_def
          GenerateSchema_def Let_def SimpleArgs_type_def SimpleArgs_shape_def test_reflect_def)
  note X = GetToolkitDescription_complete
      [where t = manifest_toolkit
         and marshal = test_marshal and parentOrder = "[''p2'', ''emptyP'', ''parent1'']"
         and childOrder = manifest_child_order and cn = "''c2a''" and cd = "''desc_c2a''"
         and argType = SimpleArgs_type and handler = "test_handler ''c2a'' ''r2a'' False"
         and unmarshal = test_unmarshal_schema,
       OF k p l]
  from b have e: "\<exists>n d cs. parent1 = NewParent n d cs" "\<exists>n d cs. simple_parent = NewParent n d cs"
    "\<exists>n d cs. emptyP = NewParent n d cs"
    by simp_all
  have reg: "parents manifest_toolkit ''p2'' = Some simple_parent"
    "parents manifest_toolkit ''emptyP'' = Some emptyP"
    by (simp_all add: manifest_toolkit_def New_def simple_parent_def emptyP_def parent1_def
          createTestParent_def NewParent_def)
  have ch: "Parent_GetChildren simple_parent ''c2a''
              = Some (NewChild ''c2a'' ''desc_c2a'' SimpleArgs_type (test_handler ''c2a'' ''r2a'' False))"
    by (simp add: simple_parent_def createTestParent_def NewParent_def createTestChildFn_def)
  have sh: "map field_name (filter field_required (arg_shape SimpleArgs_type)) = [''input'']"
    by (simp add: SimpleArgs_type_def SimpleArgs_shape_def)
  from X have d1: "distinct (map fst (manifest_tree (read_manifest ?D)))"
    and d2: "set (map fst (manifest_tree (read_manifest ?D))) = dom (parents manifest_toolkit)"
    by blast+
  from X reg(2) have d3: "\<exists>cs. (''emptyP'', cs) \<in> set (manifest_tree (read_manifest ?D))
            \<and> distinct cs \<and> set cs = dom (Parent_GetChildren emptyP)"
    by blast
  from X reg(1) ch h r
  have d4: "\<exists>schemaText schema.
          ChildEntry ''c2a'' ''desc_c2a'' schemaText \<in> set (read_manifest ?D)
          \<and> test_unmarshal_schema schemaText = Inr schema
          \<and> schema_required schema
              = map field_name (filter field_required (arg_shape SimpleArgs_type))"
    by blast
  show ?thesis
    using e r d1 d2 d3 d4 [unfolded sh]
    by (intro conjI)
qed

end
